theory Spec2Isabelle
  imports Main "HOL-Library.AList"
begin

section \<open>Python values used by the server\<close>

text \<open>
  A socket is identified by its local and remote address, exactly the two things
  \<open>is_same_socket\<close> in \<^verbatim>\<open>Room.py\<close> and \<^verbatim>\<open>server.py\<close> compares.  The source compares
  sockets inside one \<open>Room\<close> object with \<^verbatim>\<open>==\<close> (object identity, preserved by pickling
  a room as a whole); in the model both comparisons are equality of the address pair.
\<close>

type_synonym address = "string \<times> nat"

datatype socket = Socket (getsockname: address) (getpeername: address)

datatype error = IndexError | ValueError | KeyError | UnboundLocalError | AttributeError | TypeError

definition is_same_socket :: "socket \<Rightarrow> socket \<Rightarrow> bool" where
  "is_same_socket socket1 socket2 \<longleftrightarrow>
     getsockname socket1 = getsockname socket2 \<and> getpeername socket1 = getpeername socket2"

text \<open>Python list indexing: a negative index counts from the end, anything else out of
  range raises \<open>IndexError\<close>.\<close>

definition py_index :: "'a list \<Rightarrow> int \<Rightarrow> error + nat" where
  "py_index xs i =
     (let n = int (length xs); j = (if i < 0 then i + n else i)
      in if 0 \<le> j \<and> j < n then Inr (nat j) else Inl IndexError)"

definition getitem :: "'a list \<Rightarrow> int \<Rightarrow> error + 'a" where
  "getitem xs i = (case py_index xs i of Inl e \<Rightarrow> Inl e | Inr k \<Rightarrow> Inr (xs ! k))"

text \<open>\<^verbatim>\<open>m[row][column] = v\<close>: the row is fetched first, then the cell is stored in it.\<close>

definition set_cell :: "int list list \<Rightarrow> int \<Rightarrow> int \<Rightarrow> int \<Rightarrow> error + int list list" where
  "set_cell m row column v =
     (case py_index m row of
        Inl e \<Rightarrow> Inl e
      | Inr i \<Rightarrow>
          (case py_index (m ! i) column of
             Inl e \<Rightarrow> Inl e
           | Inr j \<Rightarrow> Inr (m[i := (m ! i)[j := v]])))"

text \<open>\<^verbatim>\<open>str(n)\<close> for an integer: decimal digits, a minus sign for a negative number.\<close>

definition digit_char :: "nat \<Rightarrow> char" where
  "digit_char d = ''0123456789'' ! d"

fun str_nat :: "nat \<Rightarrow> string" where
  "str_nat n = (if n < 10 then [digit_char n] else str_nat (n div 10) @ [digit_char (n mod 10)])"

declare str_nat.simps [simp del]

definition str_int :: "int \<Rightarrow> string" where
  "str_int i = (if i < 0 then CHR ''-'' # str_nat (nat (- i)) else str_nat (nat i))"

section \<open>Room.py\<close>

record room =
  players :: "socket list"
  viewers :: "socket list"
  max_players :: nat
  matrix :: "int list list"
  current_player :: socket
  has_end :: bool
  status_code :: string
  has_began :: bool

text \<open>\<open>Room.__init__\<close>\<close>

definition Room :: "socket \<Rightarrow> room" where
  "Room sender_socket =
     \<lparr> players = [sender_socket],
       viewers = [],
       max_players = 2,
       matrix = replicate 3 (replicate 3 0),
       current_player = sender_socket,
       has_end = False,
       status_code = ''3'',
       has_began = False \<rparr>"

text \<open>\<open>Room.join\<close> returns the reply and, when a player is accepted, sets \<open>has_began\<close>
  on the object it was called on.\<close>

definition join :: "room \<Rightarrow> string \<Rightarrow> string \<times> room" where
  "join self mode =
     (if mode = ''PLAYER'' then
        (if length (players self) < max_players self
         then (''JOIN:ACKSTATUS:0'', self\<lparr>has_began := True\<rparr>)
         else (''JOIN:ACKSTATUS:2'', self))
      else (''JOIN:ACKSTATUS:0'', self))"

text \<open>
  The board is created 3 by 3 and only ever changed cell by cell (\<open>set_cell\<close> keeps the
  shape, lemma \<open>set_cell_shape\<close> below), so the reads \<open>m ! i ! j\<close> with \<open>i, j < 3\<close> of
  the win checks are in range; the theorems about them assume \<open>board_shape\<close>.
\<close>

definition board_shape :: "int list list \<Rightarrow> bool" where
  "board_shape m \<longleftrightarrow> length m = 3 \<and> list_all (\<lambda>row. length row = 3) m"

definition check_rows :: "room \<Rightarrow> bool" where
  "check_rows self =
     list_ex (\<lambda>row. row ! 0 = row ! 1 \<and> row ! 1 = row ! 2 \<and> row ! 0 \<noteq> 0) (matrix self)"

definition check_columns :: "room \<Rightarrow> bool" where
  "check_columns self =
     list_ex (\<lambda>col. matrix self ! 0 ! col = matrix self ! 1 ! col
                  \<and> matrix self ! 1 ! col = matrix self ! 2 ! col
                  \<and> matrix self ! 0 ! col \<noteq> 0) [0 ..< 3]"

definition check_diagonals :: "room \<Rightarrow> bool" where
  "check_diagonals self =
     (if matrix self ! 0 ! 0 = matrix self ! 1 ! 1 \<and> matrix self ! 1 ! 1 = matrix self ! 2 ! 2
         \<and> matrix self ! 0 ! 0 \<noteq> 0 then True
      else if matrix self ! 0 ! 2 = matrix self ! 1 ! 1 \<and> matrix self ! 1 ! 1 = matrix self ! 2 ! 0
         \<and> matrix self ! 0 ! 2 \<noteq> 0 then True
      else False)"

definition is_board_full :: "room \<Rightarrow> bool" where
  "is_board_full self = list_all (\<lambda>row. 0 \<notin> set row) (matrix self)"

definition check_end_status :: "room \<Rightarrow> room" where
  "check_end_status self =
     (if check_rows self \<or> check_columns self \<or> check_diagonals self
      then self\<lparr>status_code := ''0'', has_end := True\<rparr>
      else if is_board_full self
      then self\<lparr>status_code := ''1'', has_end := True\<rparr>
      else self)"

definition get_matrix_in_string :: "room \<Rightarrow> string" where
  "get_matrix_in_string self = concat (map str_int (concat (matrix self)))"

definition get_current_player :: "room \<Rightarrow> error + socket" where
  "get_current_player self =
     (case getitem (players self) 0 of
        Inl e \<Rightarrow> Inl e
      | Inr p0 \<Rightarrow> if current_player self = p0 then Inr p0 else getitem (players self) 1)"

definition get_next_turn_player :: "room \<Rightarrow> error + socket" where
  "get_next_turn_player self =
     (case getitem (players self) 0 of
        Inl e \<Rightarrow> Inl e
      | Inr p0 \<Rightarrow> if current_player self = p0 then getitem (players self) 1 else Inr p0)"

text \<open>\<open>Room.send_to_all_viewers\<close>: the messages handed to \<open>sendall\<close>, in order.\<close>

definition send_to_all_viewers :: "room \<Rightarrow> string \<Rightarrow> (socket \<times> string) list" where
  "send_to_all_viewers self message = map (\<lambda>viewer. (viewer, message)) (viewers self)"

text \<open>
  \<open>Room.update_matrix\<close>.  The cell is written before the turn is handed over, and
  \<open>players[1]\<close> raises when the room has one player; an exception leaves the caller
  without a room to store, which is the \<open>Inl\<close> result.
\<close>

definition update_matrix :: "room \<Rightarrow> int \<Rightarrow> int \<Rightarrow> error + room" where
  "update_matrix self row column =
     (case getitem (players self) 0 of
        Inl e \<Rightarrow> Inl e
      | Inr p0 \<Rightarrow>
          if current_player self = p0 then
            (case set_cell (matrix self) row column 1 of
               Inl e \<Rightarrow> Inl e
             | Inr m \<Rightarrow>
                 (case getitem (players self) 1 of
                    Inl e \<Rightarrow> Inl e
                  | Inr p1 \<Rightarrow> Inr (check_end_status (self\<lparr>matrix := m, current_player := p1\<rparr>))))
          else
            (case set_cell (matrix self) row column 2 of
               Inl e \<Rightarrow> Inl e
             | Inr m \<Rightarrow> Inr (check_end_status (self\<lparr>matrix := m, current_player := p0\<rparr>))))"

text \<open>\<open>Room.update\<close>\<close>

definition update :: "room \<Rightarrow> socket \<Rightarrow> string \<Rightarrow> room" where
  "update self sender_socket mode =
     (if mode = ''PLAYER'' then
        (if length (players self) < max_players self
         then self\<lparr>players := players self @ [sender_socket], has_began := True\<rparr>
         else self)
      else if mode = ''VIEWER'' then self\<lparr>viewers := viewers self @ [sender_socket]\<rparr>
      else self)"

text \<open>\<open>Room.get_another_player\<close>: the \<open>while i < 2\<close> search, then the choice on \<open>i\<close>.\<close>

function find_player_index :: "socket list \<Rightarrow> socket \<Rightarrow> nat \<Rightarrow> error + nat" where
  "find_player_index ps sender_socket i =
     (if i < 2 then
        (case getitem ps (int i) of
           Inl e \<Rightarrow> Inl e
         | Inr p \<Rightarrow> if is_same_socket p sender_socket then Inr i
                    else find_player_index ps sender_socket (i + 1))
      else Inr i)"
  by pat_completeness auto
termination
  by (relation "measure (\<lambda>(ps, s, i). 2 - i)") auto

declare find_player_index.simps [simp del]

definition get_another_player :: "room \<Rightarrow> socket \<Rightarrow> error + socket" where
  "get_another_player self sender_socket =
     (case find_player_index (players self) sender_socket 0 of
        Inl e \<Rightarrow> Inl e
      | Inr i \<Rightarrow> if i = 0 then getitem (players self) 1 else getitem (players self) 0)"

definition able_to_add_player :: "room \<Rightarrow> bool" where
  "able_to_add_player self \<longleftrightarrow> length (players self) < max_players self"

definition in_room_as_a_player :: "room \<Rightarrow> socket \<Rightarrow> bool" where
  "in_room_as_a_player self sender_socket =
     list_ex (\<lambda>player_socket. is_same_socket player_socket sender_socket) (players self)"

section \<open>Python strings\<close>

text \<open>
  A \<open>str\<close> is modelled as a list of \<open>char\<close>, one per code point below 256.
  \<open>is_space\<close> is \<open>str.isspace\<close> on those code points, \<open>strip\<close> is \<open>str.strip()\<close>
  and \<open>split\<close> is \<open>str.split(sep)\<close> for a one-character separator.
\<close>

definition is_space :: "char \<Rightarrow> bool" where
  "is_space c \<longleftrightarrow> (of_char c :: nat) \<in> {9, 10, 11, 12, 13, 28, 29, 30, 31, 32, 133, 160}"

definition strip :: "string \<Rightarrow> string" where
  "strip s = rev (dropWhile is_space (rev (dropWhile is_space s)))"

fun split :: "char \<Rightarrow> string \<Rightarrow> string list" where
  "split sep [] = [[]]"
| "split sep (c # cs) =
     (if c = sep then [] # split sep cs
      else (case split sep cs of [] \<Rightarrow> [[c]] | f # fs \<Rightarrow> (c # f) # fs))"

fun str_join :: "string \<Rightarrow> string list \<Rightarrow> string" where
  "str_join sep [] = []"
| "str_join sep [x] = x"
| "str_join sep (x # y # ys) = x @ sep @ str_join sep (y # ys)"

text \<open>
  \<open>int(s)\<close> on such a string: surrounding white space is dropped, one sign is allowed,
  then decimal digits, where single underscores may stand between digits; anything else
  raises \<open>ValueError\<close>.  The white space that \<open>int\<close> drops is narrower than
  \<open>str.isspace\<close>: the separators 0x1C to 0x1F are not part of it.  (The interpreter's
  limit on the number of digits is not modelled.)
\<close>

definition is_int_space :: "char \<Rightarrow> bool" where
  "is_int_space c \<longleftrightarrow> (of_char c :: nat) \<in> {9, 10, 11, 12, 13, 32, 133, 160}"

definition is_digit :: "char \<Rightarrow> bool" where
  "is_digit c \<longleftrightarrow> c \<in> set ''0123456789''"

definition digit_val :: "char \<Rightarrow> nat" where
  "digit_val c = of_char c - 48"

fun valid_digits :: "string \<Rightarrow> bool" where
  "valid_digits [] = False"
| "valid_digits [c] = is_digit c"
| "valid_digits (c # d # cs) =
     (is_digit c \<and> (if d = CHR ''_'' then valid_digits cs else valid_digits (d # cs)))"

definition digits_value :: "string \<Rightarrow> nat" where
  "digits_value body =
     foldl (\<lambda>acc c. 10 * acc + digit_val c) 0 (filter (\<lambda>c. c \<noteq> CHR ''_'') body)"

definition py_int :: "string \<Rightarrow> error + int" where
  "py_int s =
     (let t = rev (dropWhile is_int_space (rev (dropWhile is_int_space s)));
          signed = (t \<noteq> [] \<and> (hd t = CHR ''-'' \<or> hd t = CHR ''+''));
          body = (if signed then tl t else t)
      in if valid_digits body
         then Inr (if t \<noteq> [] \<and> hd t = CHR ''-'' then - int (digits_value body)
                   else int (digits_value body))
         else Inl ValueError)"

section \<open>server.py\<close>

text \<open>
  The shared dictionaries of the server, in insertion order.  \<open>rooms\<close> and \<open>users\<close> have
  string keys (\<open>AList.update\<close> is the dictionary store: replace in place or append).
  \<open>clients\<close> and \<open>authenticated_clients\<close> have socket objects as keys, which are
  compared by identity, so a store appends an entry; the source removes the entries of
  the same connection (\<open>is_same_socket\<close>) itself before it stores.  \<open>sent\<close> is the log of
  every \<open>sendall\<close>: receiver and text, oldest first.
\<close>

record server =
  rooms :: "(string \<times> room) list"
  clients :: "(socket \<times> string option) list"
  authenticated_clients :: "(socket \<times> string) list"
  users :: "(string \<times> string) list"
  sent :: "(socket \<times> string) list"

text \<open>A handler either returns or raises; both leave a server state behind.\<close>

datatype outcome = Returned server | Raised error server

definition sendall :: "socket \<Rightarrow> string \<Rightarrow> server \<Rightarrow> server" where
  "sendall s message st = st\<lparr>sent := sent st @ [(s, message)]\<rparr>"

fun get_key_by_value :: "('k \<times> 'v) list \<Rightarrow> 'v \<Rightarrow> 'k option" where
  "get_key_by_value [] val = None"
| "get_key_by_value ((k, v) # d) val = (if v = val then Some k else get_key_by_value d val)"

definition check_authorizations :: "socket \<Rightarrow> (socket \<times> string) list \<Rightarrow> bool" where
  "check_authorizations sender_socket authenticated =
     list_ex (\<lambda>old_socket. is_same_socket old_socket sender_socket) (map fst authenticated)"

text \<open>
  The loops \<^verbatim>\<open>for user in authenticated_clients.values()\<close>.  \<open>is_same_socket\<close> on the
  \<open>None\<close> that \<open>get_key_by_value\<close> returns for a missing value raises \<open>AttributeError\<close>,
  after both of its arguments have been evaluated.
  \<open>winner_loop\<close> is the loop of \<open>place\<close> (the last match is kept), \<open>forfeit_loop\<close> the one
  of \<open>forfeit\<close> (every match is appended to the message), \<open>names_loop\<close> the one of
  \<open>join_room\<close> (two targets, \<open>if\<close>/\<open>elif\<close>).
\<close>

fun winner_loop ::
  "(socket \<times> string) list \<Rightarrow> room \<Rightarrow> string list \<Rightarrow> string option \<Rightarrow> error + string option" where
  "winner_loop auth r [] winner = Inr winner"
| "winner_loop auth r (user # us) winner =
     (case get_next_turn_player r of
        Inl e \<Rightarrow> Inl e
      | Inr p \<Rightarrow>
          (case get_key_by_value auth user of
             None \<Rightarrow> Inl AttributeError
           | Some k \<Rightarrow> winner_loop auth r us (if is_same_socket k p then Some user else winner)))"

fun forfeit_loop ::
  "(socket \<times> string) list \<Rightarrow> room \<Rightarrow> string list \<Rightarrow> string \<Rightarrow> error + string" where
  "forfeit_loop auth r [] board_status = Inr board_status"
| "forfeit_loop auth r (user # us) board_status =
     (case get_next_turn_player r of
        Inl e \<Rightarrow> Inl e
      | Inr p \<Rightarrow>
          (case get_key_by_value auth user of
             None \<Rightarrow> Inl AttributeError
           | Some k \<Rightarrow>
               forfeit_loop auth r us
                 (if is_same_socket k p then board_status @ user else board_status)))"

fun names_loop ::
  "(socket \<times> string) list \<Rightarrow> socket \<Rightarrow> socket \<Rightarrow> string list
     \<Rightarrow> string option \<times> string option \<Rightarrow> error + (string option \<times> string option)" where
  "names_loop auth t1 t2 [] acc = Inr acc"
| "names_loop auth t1 t2 (user # us) (player_1, player_2) =
     (case get_key_by_value auth user of
        None \<Rightarrow> Inl AttributeError
      | Some k \<Rightarrow>
          names_loop auth t1 t2 us
            (if is_same_socket k t1 then (Some user, player_2)
             else if is_same_socket k t2 then (player_1, Some user)
             else (player_1, player_2)))"

text \<open>The two places that end a match drop both players from \<open>clients\<close> and the room
  from \<open>rooms\<close>.\<close>

definition close_room :: "socket \<Rightarrow> socket \<Rightarrow> string \<Rightarrow> server \<Rightarrow> server" where
  "close_room sender_socket another_player roomname st =
     st\<lparr> clients :=
           filter (\<lambda>(k, v). \<not> is_same_socket k sender_socket \<and> \<not> is_same_socket k another_player)
             (clients st) @ [(sender_socket, None), (another_player, None)],
         rooms := filter (\<lambda>(k, v). k \<noteq> roomname) (rooms st) \<rparr>"

definition forfeit :: "socket \<Rightarrow> string \<Rightarrow> server \<Rightarrow> outcome" where
  "forfeit sender_socket roomname st =
     (case map_of (rooms st) roomname of
        None \<Rightarrow> Raised KeyError st
      | Some r \<Rightarrow>
          (case forfeit_loop (authenticated_clients st) r (map snd (authenticated_clients st))
                  (''GAMEEND:'' @ get_matrix_in_string r @ '':2:'') of
             Inl e \<Rightarrow> Raised e st
           | Inr board_status \<Rightarrow>
               (case get_another_player r sender_socket of
                  Inl e \<Rightarrow> Raised e (sendall sender_socket board_status st)
                | Inr another_player \<Rightarrow>
                    Returned
                      (close_room sender_socket another_player roomname
                         (st\<lparr>sent := sent st @ [(sender_socket, board_status),
                                                (another_player, board_status)]
                                       @ send_to_all_viewers r board_status\<rparr>)))))"

text \<open>The text that \<open>place\<close> sends, computed from the room after the move.\<close>

definition place_board_status :: "room \<Rightarrow> (socket \<times> string) list \<Rightarrow> error + string" where
  "place_board_status r auth =
     (if \<not> has_end r then Inr (''BOARDSTATUS:'' @ get_matrix_in_string r)
      else if status_code r = ''0'' then
        (case winner_loop auth r (map snd auth) None of
           Inl e \<Rightarrow> Inl e
         | Inr None \<Rightarrow> Inl UnboundLocalError
         | Inr (Some winner) \<Rightarrow>
             Inr (''GAMEEND:'' @ get_matrix_in_string r @ '':'' @ status_code r @ '':'' @ winner))
      else Inr (''GAMEEND:'' @ get_matrix_in_string r @ '':'' @ status_code r))"

definition place :: "string list \<Rightarrow> socket \<Rightarrow> string \<Rightarrow> server \<Rightarrow> outcome" where
  "place splited_message sender_socket roomname st =
     (case getitem splited_message 2 of Inl e \<Rightarrow> Raised e st | Inr field2 \<Rightarrow>
      case py_int field2 of Inl e \<Rightarrow> Raised e st | Inr row \<Rightarrow>
      case getitem splited_message 1 of Inl e \<Rightarrow> Raised e st | Inr field1 \<Rightarrow>
      case py_int field1 of Inl e \<Rightarrow> Raised e st | Inr column \<Rightarrow>
      case map_of (rooms st) roomname of None \<Rightarrow> Raised KeyError st | Some r0 \<Rightarrow>
      case update_matrix r0 row column of Inl e \<Rightarrow> Raised e st | Inr r \<Rightarrow>
      case place_board_status r (authenticated_clients st) of
        Inl e \<Rightarrow> Raised e (st\<lparr>rooms := AList.update roomname r (rooms st)\<rparr>)
      | Inr board_status \<Rightarrow>
      case get_another_player r sender_socket of
        Inl e \<Rightarrow>
          Raised e (sendall sender_socket board_status
                      (st\<lparr>rooms := AList.update roomname r (rooms st)\<rparr>))
      | Inr another_player \<Rightarrow>
          Returned
            ((if has_end r then close_room sender_socket another_player roomname else id)
               (st\<lparr>rooms := AList.update roomname r (rooms st),
                    sent := sent st @ [(sender_socket, board_status),
                                       (another_player, board_status)]
                              @ send_to_all_viewers r board_status\<rparr>)))"

text \<open>
  \<open>join_room\<close>.  \<open>rooms.get(room_name)\<close> hands out a copy of the stored room, so what
  \<open>Room.join\<close> changes on its copy is lost and only its reply is used; the room stored
  back is the one \<open>Room.update\<close> returns.
\<close>

definition join_room :: "string list \<Rightarrow> socket \<Rightarrow> server \<Rightarrow> outcome" where
  "join_room splited_message sender_socket st =
     (if length splited_message \<noteq> 2 then Returned (sendall sender_socket ''JOIN:ACKSTATUS:3'' st)
      else if splited_message ! 1 \<noteq> ''VIEWER'' \<and> splited_message ! 1 \<noteq> ''PLAYER''
      then Returned (sendall sender_socket ''JOIN:ACKSTATUS:3'' st)
      else
        (let room_name = splited_message ! 0; user_type = splited_message ! 1 in
         case map_of (rooms st) room_name of
           None \<Rightarrow> Returned (sendall sender_socket ''JOIN:ACKSTATUS:1'' st)
         | Some r0 \<Rightarrow>
            (let message_from_room = fst (join r0 user_type);
                 r = update r0 sender_socket user_type;
                 st1 = sendall sender_socket message_from_room
                         (st\<lparr>rooms := AList.update room_name r (rooms st)\<rparr>)
             in
             if message_from_room = ''JOIN:ACKSTATUS:0'' \<and> user_type = ''PLAYER''
                  \<and> \<not> able_to_add_player r then
               (case get_another_player r sender_socket of
                  Inl e \<Rightarrow> Raised e st1
                | Inr another_player \<Rightarrow>
                   (case names_loop (authenticated_clients st) another_player sender_socket
                           (map snd (authenticated_clients st)) (None, None) of
                      Inl e \<Rightarrow> Raised e st1
                    | Inr (None, _) \<Rightarrow> Raised UnboundLocalError st1
                    | Inr (Some player_1, None) \<Rightarrow> Raised UnboundLocalError st1
                    | Inr (Some player_1, Some player_2) \<Rightarrow>
                        Returned
                          (st1\<lparr> sent := sent st1
                                   @ [(another_player, ''BEGIN:'' @ player_1 @ '':'' @ player_2),
                                      (sender_socket, ''BEGIN:'' @ player_1 @ '':'' @ player_2)]
                                   @ send_to_all_viewers r
                                       (''INPROGRESS:'' @ player_1 @ '':'' @ player_2),
                                 clients :=
                                   filter (\<lambda>(k, v). \<not> is_same_socket k sender_socket) (clients st1)
                                   @ [(sender_socket, Some room_name)] \<rparr>)))
             else if message_from_room = ''JOIN:ACKSTATUS:0'' \<and> user_type = ''VIEWER''
                  \<and> \<not> able_to_add_player r then
               (case get_current_player r of
                  Inl e \<Rightarrow> Raised e st1
                | Inr current \<Rightarrow>
                   (case get_next_turn_player r of
                      Inl e \<Rightarrow> Raised e st1
                    | Inr next_player \<Rightarrow>
                       (case names_loop (authenticated_clients st) current next_player
                               (map snd (authenticated_clients st)) (None, None) of
                          Inl e \<Rightarrow> Raised e st1
                        | Inr (None, _) \<Rightarrow> Raised UnboundLocalError st1
                        | Inr (Some player_1, None) \<Rightarrow> Raised UnboundLocalError st1
                        | Inr (Some player_1, Some player_2) \<Rightarrow>
                            Returned (sendall sender_socket
                                        (''INPROGRESS:'' @ player_1 @ '':'' @ player_2) st1))))
             else Returned st1)))"

text \<open>
  \<open>check_legal_room_name\<close>: \<^verbatim>\<open>re.match(r'^[a-zA-Z0-9 _-]{1,20}$', room_name)\<close>.  In Python
  \<^verbatim>\<open>$\<close> matches at the end of the string and also just before a newline that ends the
  string, so one trailing newline is not part of the 1 to 20 characters that are checked.
\<close>

definition room_name_chars :: string where
  "room_name_chars = ''abcdefghijklmnopqrstuvwxyzABCDEFGHIJKLMNOPQRSTUVWXYZ0123456789 _-''"

definition check_legal_room_name :: "string \<Rightarrow> bool" where
  "check_legal_room_name room_name =
     (let body = (if room_name \<noteq> [] \<and> last room_name = CHR 0x0A
                  then butlast room_name else room_name)
      in 1 \<le> length body \<and> length body \<le> 20 \<and> list_all (\<lambda>c. c \<in> set room_name_chars) body)"

definition create_room :: "string list \<Rightarrow> socket \<Rightarrow> server \<Rightarrow> outcome" where
  "create_room splited_message sender_socket st =
     (if length splited_message \<noteq> 1 then Returned (sendall sender_socket ''CREATE:ACKSTATUS:4'' st)
      else
        (let new_room_name = splited_message ! 0 in
         if check_legal_room_name new_room_name then
           (if new_room_name \<in> set (map fst (rooms st))
            then Returned (sendall sender_socket ''CREATE:ACKSTATUS:2'' st)
            else if length (rooms st) = 256
            then Returned (sendall sender_socket ''CREATE:ACKSTATUS:3'' st)
            else
              Returned
                ((sendall sender_socket ''CREATE:ACKSTATUS:0'' st)
                   \<lparr> rooms := AList.update new_room_name (Room sender_socket) (rooms st),
                     clients :=
                       filter (\<lambda>(k, v). \<not> is_same_socket k sender_socket) (clients st)
                       @ [(sender_socket, Some new_room_name)] \<rparr>))
         else Returned (sendall sender_socket ''CREATE:ACKSTATUS:1'' st)))"

definition room_list :: "string list \<Rightarrow> socket \<Rightarrow> server \<Rightarrow> outcome" where
  "room_list splited_message sender_socket st =
     (if length splited_message \<noteq> 1 then Returned (sendall sender_socket ''ROOMLIST:ACKSTATUS:1'' st)
      else if splited_message ! 0 \<noteq> ''PLAYER'' \<and> splited_message ! 0 \<noteq> ''VIEWER''
      then Returned (sendall sender_socket ''ROOMLIST:ACKSTATUS:1'' st)
      else
        (let client_type = splited_message ! 0;
             rooms_name_list =
               (if client_type = ''VIEWER'' then map fst (rooms st)
                else map fst (filter (\<lambda>(room_a, r). able_to_add_player r) (rooms st)))
         in Returned (sendall sender_socket
                        (''ROOMLIST:ACKSTATUS:0:'' @ str_join '','' rooms_name_list) st)))"

text \<open>
  \<open>login\<close>.  \<open>checkpw\<close> stands for \<open>bcrypt.checkpw\<close> on the typed password and the stored
  hash, which belongs to the bcrypt library and not to this repository.
\<close>

definition login ::
  "(string \<Rightarrow> string \<Rightarrow> bool) \<Rightarrow> string list \<Rightarrow> socket \<Rightarrow> server \<Rightarrow> outcome" where
  "login checkpw splited_message sender_socket st =
     (if length splited_message \<noteq> 2 then Returned (sendall sender_socket ''LOGIN:ACKSTATUS:3'' st)
      else if splited_message ! 0 = [] \<or> splited_message ! 1 = []
      then Returned (sendall sender_socket ''LOGIN:ACKSTATUS:3'' st)
      else
        (let username = splited_message ! 0; password = splited_message ! 1 in
         case map_of (users st) username of
           None \<Rightarrow> Returned (sendall sender_socket ''LOGIN:ACKSTATUS:1'' st)
         | Some hashed \<Rightarrow>
             if checkpw password hashed then
               (if username \<in> set (map snd (authenticated_clients st))
                then Returned (sendall sender_socket ''LOGIN:ACKSTATUS:4'' st)
                else if check_authorizations sender_socket (authenticated_clients st)
                then Returned (sendall sender_socket ''LOGIN:ACKSTATUS:5'' st)
                else
                  Returned
                    ((sendall sender_socket ''LOGIN:ACKSTATUS:0'' st)
                       \<lparr> authenticated_clients :=
                           authenticated_clients st @ [(sender_socket, username)] \<rparr>))
             else Returned (sendall sender_socket ''LOGIN:ACKSTATUS:2'' st)))"

text \<open>
  \<open>handle_message\<close>.  The room of the sender is the last room, in the order of
  \<open>rooms.keys()\<close>, that has the sender among its players.
\<close>

fun find_player_room ::
  "(string \<times> room) list \<Rightarrow> string list \<Rightarrow> socket \<Rightarrow> string option \<Rightarrow> error + string option" where
  "find_player_room rs [] sender_socket roomname = Inr roomname"
| "find_player_room rs (room # keys) sender_socket roomname =
     (case map_of rs room of
        None \<Rightarrow> Inl KeyError
      | Some r \<Rightarrow>
          find_player_room rs keys sender_socket
            (if in_room_as_a_player r sender_socket then Some room else roomname))"

text \<open>
  The guard of the \<open>while\<close> loop that holds a player's command back, and the test before
  the \<open>break\<close> in its body.  Python's \<open>or\<close> and \<open>and\<close> do not evaluate their second
  operand when the first decides.
\<close>

definition must_wait :: "room \<Rightarrow> socket \<Rightarrow> error + bool" where
  "must_wait r sender_socket =
     (if \<not> has_began r then Inr True
      else (case get_current_player r of
              Inl e \<Rightarrow> Inl e
            | Inr p \<Rightarrow> Inr (\<not> is_same_socket p sender_socket)))"

definition may_break :: "room \<Rightarrow> socket \<Rightarrow> error + bool" where
  "may_break r sender_socket =
     (if has_began r then
        (case get_current_player r of
           Inl e \<Rightarrow> Inl e
         | Inr p \<Rightarrow> Inr (is_same_socket p sender_socket))
      else Inr False)"

text \<open>
  The loop reads the room from the shared dictionary at every test.  \<open>wait_for_turn\<close> is
  the loop while no other handler stores the room in between, so that every test sees the
  same room; the loop whose reads see what the other handlers store is \<open>wait_shared\<close>
  below, and lemma \<open>handle_message_shared_frozen\<close> shows that the two agree on a state
  that does not change.  A loop that never leaves is the value \<open>None\<close>: the command is
  held back and nothing after the loop runs.  \<open>Some None\<close> is leaving the loop,
  \<open>Some (Some e)\<close> an exception in a test.
\<close>

partial_function (option) wait_for_turn :: "room \<Rightarrow> socket \<Rightarrow> error option option" where
  "wait_for_turn r sender_socket =
     (case must_wait r sender_socket of
        Inl e \<Rightarrow> Some (Some e)
      | Inr waiting \<Rightarrow>
          if waiting then
            (case may_break r sender_socket of
               Inl e \<Rightarrow> Some (Some e)
             | Inr leave \<Rightarrow> if leave then Some None else wait_for_turn r sender_socket)
          else Some None)"

text \<open>
  \<open>register\<close> writes the user database file and salts the hash at random; it is taken as
  a parameter.  The result of \<open>handle_message\<close> is \<open>None\<close> when the waiting loop never
  leaves.
\<close>

definition handle_message ::
  "(string \<Rightarrow> string \<Rightarrow> bool) \<Rightarrow> (string list \<Rightarrow> socket \<Rightarrow> server \<Rightarrow> outcome)
     \<Rightarrow> socket \<Rightarrow> string \<Rightarrow> server \<Rightarrow> outcome option" where
  "handle_message checkpw register sender_socket message st =
     (let splited_message = split CHR '':'' message in
      if splited_message ! 0 = ''LOGIN''
      then Some (login checkpw (tl splited_message) sender_socket st)
      else if splited_message ! 0 = ''REGISTER''
      then Some (register (tl splited_message) sender_socket st)
      else if \<not> check_authorizations sender_socket (authenticated_clients st)
      then Some (Returned (sendall sender_socket ''BADAUTH'' st))
      else if splited_message ! 0 = ''ROOMLIST''
      then Some (room_list (tl splited_message) sender_socket st)
      else if splited_message ! 0 = ''CREATE''
      then Some (create_room (tl splited_message) sender_socket st)
      else if splited_message ! 0 = ''JOIN''
      then Some (join_room (tl splited_message) sender_socket st)
      else
        (case find_player_room (rooms st) (map fst (rooms st)) sender_socket None of
           Inl e \<Rightarrow> Some (Raised e st)
         | Inr None \<Rightarrow> Some (Returned (sendall sender_socket ''NOROOM'' st))
         | Inr (Some roomname) \<Rightarrow>
             (case map_of (rooms st) roomname of
                None \<Rightarrow> Some (Raised KeyError st)
              | Some r \<Rightarrow>
                  if in_room_as_a_player r sender_socket then
                    (case wait_for_turn r sender_socket of
                       None \<Rightarrow> None
                     | Some (Some e) \<Rightarrow> Some (Raised e st)
                     | Some None \<Rightarrow>
                         if splited_message ! 0 = ''PLACE''
                         then Some (place splited_message sender_socket roomname st)
                         else if splited_message ! 0 = ''FORFEIT''
                         then Some (forfeit sender_socket roomname st)
                         else Some (Returned st))
                  else Some (Returned st))))"

text \<open>The two lines of \<open>handle_client\<close> that hand a received frame to \<open>handle_message\<close>.\<close>

definition handle_data ::
  "(string \<Rightarrow> string \<Rightarrow> bool) \<Rightarrow> (string list \<Rightarrow> socket \<Rightarrow> server \<Rightarrow> outcome)
     \<Rightarrow> socket \<Rightarrow> string \<Rightarrow> server \<Rightarrow> outcome option" where
  "handle_data checkpw register client_socket data st =
     handle_message checkpw register client_socket (strip data) st"

subsection \<open>Handlers that run at the same time\<close>

text \<open>
  Every connection has its own handler process and all of them work on the same
  dictionaries.  \<open>handle_message\<close> above is one message handled while no other handler
  changes the state.  The two places where the source gives another handler room to act in
  the middle of a command are modelled as well: \<open>place\<close> in its two parts, and the waiting
  loop on the shared dictionary.

  \<open>place_store\<close> is \<open>place\<close> up to the store of the room after the move, \<open>place_announce\<close>
  is the rest: it reads the stored room again, sends the board or the end of the match,
  and on \<open>has_end\<close> removes the room.  Lemma \<open>place_in_two_steps\<close> below shows that
  \<open>place\<close> is the one after the other.
\<close>

definition place_store :: "string list \<Rightarrow> socket \<Rightarrow> string \<Rightarrow> server \<Rightarrow> error + server" where
  "place_store splited_message sender_socket roomname st =
     (case getitem splited_message 2 of Inl e \<Rightarrow> Inl e | Inr field2 \<Rightarrow>
      case py_int field2 of Inl e \<Rightarrow> Inl e | Inr row \<Rightarrow>
      case getitem splited_message 1 of Inl e \<Rightarrow> Inl e | Inr field1 \<Rightarrow>
      case py_int field1 of Inl e \<Rightarrow> Inl e | Inr column \<Rightarrow>
      case map_of (rooms st) roomname of None \<Rightarrow> Inl KeyError | Some r0 \<Rightarrow>
      case update_matrix r0 row column of Inl e \<Rightarrow> Inl e | Inr r \<Rightarrow>
        Inr (st\<lparr>rooms := AList.update roomname r (rooms st)\<rparr>))"

definition place_announce :: "socket \<Rightarrow> string \<Rightarrow> server \<Rightarrow> outcome" where
  "place_announce sender_socket roomname st =
     (case map_of (rooms st) roomname of None \<Rightarrow> Raised KeyError st | Some r \<Rightarrow>
      case place_board_status r (authenticated_clients st) of
        Inl e \<Rightarrow> Raised e st
      | Inr board_status \<Rightarrow>
      case get_another_player r sender_socket of
        Inl e \<Rightarrow> Raised e (sendall sender_socket board_status st)
      | Inr another_player \<Rightarrow>
          Returned
            ((if has_end r then close_room sender_socket another_player roomname else id)
               (st\<lparr>sent := sent st @ [(sender_socket, board_status),
                                       (another_player, board_status)]
                              @ send_to_all_viewers r board_status\<rparr>)))"

text \<open>
  The waiting loop on the shared dictionary.  \<open>obs n\<close> is the server state that the
  handler's read number \<open>n\<close> of \<open>rooms[roomname]\<close> sees, counted from the first test of the
  loop; whatever the other handlers store in between shows in it.  \<open>read_guard\<close> is one
  evaluation of the loop condition and \<open>read_break\<close> one of the test before \<open>break\<close>,
  each with the reads it makes (the second operand of \<open>or\<close>/\<open>and\<close> is read only when
  the first does not decide) and the number of the next read; an exception comes with the
  number of the read that raised it.  \<open>wait_shared\<close> is the loop: \<open>Some (Inr k)\<close> is
  leaving it with \<open>k\<close> the number of the next read, \<open>None\<close> is never leaving it.
\<close>

definition read_room :: "server \<Rightarrow> string \<Rightarrow> nat \<Rightarrow> (error \<times> nat) + room" where
  "read_room st roomname n =
     (case map_of (rooms st) roomname of None \<Rightarrow> Inl (KeyError, n) | Some r \<Rightarrow> Inr r)"

definition read_current_player ::
  "(nat \<Rightarrow> server) \<Rightarrow> string \<Rightarrow> nat \<Rightarrow> (error \<times> nat) + socket" where
  "read_current_player obs roomname n =
     (case read_room (obs n) roomname n of
        Inl e \<Rightarrow> Inl e
      | Inr r \<Rightarrow> (case get_current_player r of Inl e \<Rightarrow> Inl (e, n) | Inr p \<Rightarrow> Inr p))"

definition read_guard ::
  "(nat \<Rightarrow> server) \<Rightarrow> string \<Rightarrow> socket \<Rightarrow> nat \<Rightarrow> (error \<times> nat) + (bool \<times> nat)" where
  "read_guard obs roomname sender_socket n =
     (case read_room (obs n) roomname n of
        Inl e \<Rightarrow> Inl e
      | Inr r \<Rightarrow>
          if \<not> has_began r then Inr (True, n + 1)
          else (case read_current_player obs roomname (n + 1) of
                  Inl e \<Rightarrow> Inl e
                | Inr p \<Rightarrow> Inr (\<not> is_same_socket p sender_socket, n + 2)))"

definition read_break ::
  "(nat \<Rightarrow> server) \<Rightarrow> string \<Rightarrow> socket \<Rightarrow> nat \<Rightarrow> (error \<times> nat) + (bool \<times> nat)" where
  "read_break obs roomname sender_socket n =
     (case read_room (obs n) roomname n of
        Inl e \<Rightarrow> Inl e
      | Inr r \<Rightarrow>
          if has_began r then
            (case read_current_player obs roomname (n + 1) of
               Inl e \<Rightarrow> Inl e
             | Inr p \<Rightarrow> Inr (is_same_socket p sender_socket, n + 2))
          else Inr (False, n + 1))"

partial_function (option) wait_shared ::
  "(nat \<Rightarrow> server) \<Rightarrow> string \<Rightarrow> socket \<Rightarrow> nat \<Rightarrow> ((error \<times> nat) + nat) option" where
  "wait_shared obs roomname sender_socket n =
     (case read_guard obs roomname sender_socket n of
        Inl e \<Rightarrow> Some (Inl e)
      | Inr (waiting, n1) \<Rightarrow>
          if waiting then
            (case read_break obs roomname sender_socket n1 of
               Inl e \<Rightarrow> Some (Inl e)
             | Inr (leave, n2) \<Rightarrow>
                 if leave then Some (Inr n2) else wait_shared obs roomname sender_socket n2)
          else Some (Inr n1))"

text \<open>
  \<open>handle_message\<close> with the waiting loop on the shared dictionary: \<open>st\<close> is the state
  when the message is taken up, and the command that follows the loop acts on the state
  of the read after the loop.
\<close>

definition handle_message_shared ::
  "(string \<Rightarrow> string \<Rightarrow> bool) \<Rightarrow> (string list \<Rightarrow> socket \<Rightarrow> server \<Rightarrow> outcome)
     \<Rightarrow> socket \<Rightarrow> string \<Rightarrow> server \<Rightarrow> (nat \<Rightarrow> server) \<Rightarrow> outcome option" where
  "handle_message_shared checkpw register sender_socket message st obs =
     (let splited_message = split CHR '':'' message in
      if splited_message ! 0 = ''LOGIN''
      then Some (login checkpw (tl splited_message) sender_socket st)
      else if splited_message ! 0 = ''REGISTER''
      then Some (register (tl splited_message) sender_socket st)
      else if \<not> check_authorizations sender_socket (authenticated_clients st)
      then Some (Returned (sendall sender_socket ''BADAUTH'' st))
      else if splited_message ! 0 = ''ROOMLIST''
      then Some (room_list (tl splited_message) sender_socket st)
      else if splited_message ! 0 = ''CREATE''
      then Some (create_room (tl splited_message) sender_socket st)
      else if splited_message ! 0 = ''JOIN''
      then Some (join_room (tl splited_message) sender_socket st)
      else
        (case find_player_room (rooms st) (map fst (rooms st)) sender_socket None of
           Inl e \<Rightarrow> Some (Raised e st)
         | Inr None \<Rightarrow> Some (Returned (sendall sender_socket ''NOROOM'' st))
         | Inr (Some roomname) \<Rightarrow>
             (case map_of (rooms st) roomname of
                None \<Rightarrow> Some (Raised KeyError st)
              | Some r \<Rightarrow>
                  if in_room_as_a_player r sender_socket then
                    (case wait_shared obs roomname sender_socket 0 of
                       None \<Rightarrow> None
                     | Some (Inl (e, m)) \<Rightarrow> Some (Raised e (obs m))
                     | Some (Inr k) \<Rightarrow>
                         if splited_message ! 0 = ''PLACE''
                         then Some (place splited_message sender_socket roomname (obs k))
                         else if splited_message ! 0 = ''FORFEIT''
                         then Some (forfeit sender_socket roomname (obs k))
                         else Some (Returned (obs k)))
                  else Some (Returned st))))"

section \<open>client.py\<close>

text \<open>
  \<open>is_position_occupied\<close> looks a cell up in the board string the client received last.
  It returns nothing for a character other than 0, 1 and 2, and the caller's unpacking of
  that result raises \<open>TypeError\<close>.
\<close>

definition is_position_occupied ::
  "string \<Rightarrow> int \<Rightarrow> int \<Rightarrow> error + (bool \<times> string option) option" where
  "is_position_occupied board_status col row =
     (let board = map (\<lambda>i. take 3 (drop i board_status)) [0, 3, 6] in
      case getitem board row of
        Inl e \<Rightarrow> Inl e
      | Inr board_row \<Rightarrow>
          (case getitem board_row col of
             Inl e \<Rightarrow> Inl e
           | Inr position_value \<Rightarrow>
               if position_value = CHR ''0'' then Inr (Some (False, None))
               else if position_value = CHR ''1'' then Inr (Some (True, Some ''X''))
               else if position_value = CHR ''2'' then Inr (Some (True, Some ''O''))
               else Inr None))"

text \<open>
  The PLACE branch of the client's main loop, for the column and the row typed by the
  player: \<open>Inr None\<close> is an error message and no frame sent (\<open>ValueError\<close> is caught
  there), \<open>Inr (Some msg)\<close> is the frame sent to the server.
\<close>

definition client_place :: "string \<Rightarrow> string \<Rightarrow> string \<Rightarrow> error + string option" where
  "client_place board_status column_input row_input =
     (case py_int column_input of
        Inl e \<Rightarrow> Inr None
      | Inr column \<Rightarrow>
          (case py_int row_input of
             Inl e \<Rightarrow> Inr None
           | Inr row \<Rightarrow>
               if column < 0 \<or> column > 2 \<or> row < 0 \<or> row > 2 then Inr None
               else
                 (case is_position_occupied board_status column row of
                    Inl e \<Rightarrow> Inl e
                  | Inr None \<Rightarrow> Inl TypeError
                  | Inr (Some (occupied, marker)) \<Rightarrow>
                      if occupied then Inr None
                      else Inr (Some (''PLACE:'' @ str_int column @ '':'' @ str_int row)))))"

section \<open>The lifetime of a room\<close>

text \<open>
  Everything the server ever does to a \<open>Room\<close> object after creating it: \<open>Room.update\<close>
  and \<open>Room.join\<close> (from \<open>join_room\<close>) and \<open>Room.update_matrix\<close> (from \<open>place\<close>; when it
  raises, nothing is stored and the room stays as it was).  A room at any point of its
  lifetime is \<open>foldl room_step (Room creator) ops\<close> for some list of such calls.
\<close>

datatype room_op = Join socket string | JoinReply string | Place int int

fun room_step :: "room \<Rightarrow> room_op \<Rightarrow> room" where
  "room_step r (Join s mode) = update r s mode"
| "room_step r (JoinReply mode) = snd (join r mode)"
| "room_step r (Place row column) =
     (case update_matrix r row column of Inl e \<Rightarrow> r | Inr r' \<Rightarrow> r')"

section \<open>The characters of the board string\<close>

text \<open>The digit that stands for a cell: 0 for the empty cell, 1 for the mark of player
  slot 0, 2 for the mark of player slot 1; and the boards that hold nothing else.\<close>

definition mark_char :: "int \<Rightarrow> char" where
  "mark_char c = (if c = 0 then CHR ''0'' else if c = 1 then CHR ''1'' else CHR ''2'')"

definition board_marks :: "int list list \<Rightarrow> bool" where
  "board_marks m \<longleftrightarrow> list_all (\<lambda>c. c = 0 \<or> c = 1 \<or> c = 2) (concat m)"

section \<open>Room names, and the state a handler leaves\<close>

text \<open>The room names of the specification: 1 to 20 characters, each a letter, a digit,
  a space, an underscore or a hyphen.\<close>

definition matches_room_name_pattern :: "string \<Rightarrow> bool" where
  "matches_room_name_pattern name \<longleftrightarrow>
     1 \<le> length name \<and> length name \<le> 20 \<and> set name \<subseteq> set room_name_chars"

text \<open>The server state after a handler, whether it returned or raised.\<close>

fun state_of :: "outcome \<Rightarrow> server" where
  "state_of (Returned st) = st"
| "state_of (Raised e st) = st"

section \<open>The eight lines of the board\<close>

text \<open>
  The reading of the board used to state what the end-state evaluation computes: a line is
  three cell positions (row, column), and a line is uniform when its three cells hold the
  same mark and that mark is not the empty cell 0.
\<close>

type_synonym line = "(nat \<times> nat) \<times> (nat \<times> nat) \<times> (nat \<times> nat)"

definition lines8 :: "line list" where
  "lines8 = [((0,0),(0,1),(0,2)), ((1,0),(1,1),(1,2)), ((2,0),(2,1),(2,2)),
             ((0,0),(1,0),(2,0)), ((0,1),(1,1),(2,1)), ((0,2),(1,2),(2,2)),
             ((0,0),(1,1),(2,2)), ((0,2),(1,1),(2,0))]"

definition line_uniform :: "int list list \<Rightarrow> line \<Rightarrow> bool" where
  "line_uniform m l =
     (case l of ((a, b), (c, d), (e, f)) \<Rightarrow>
        m ! a ! b \<noteq> 0 \<and> m ! a ! b = m ! c ! d \<and> m ! c ! d = m ! e ! f)"

definition uniform_lines :: "int list list \<Rightarrow> line list" where
  "uniform_lines m = filter (line_uniform m) lines8"

definition no_empty_cell :: "int list list \<Rightarrow> bool" where
  "no_empty_cell m \<longleftrightarrow> 0 \<notin> set (concat m)"

section \<open>What the reads of the waiting loop show\<close>



section \<open>Concrete connections and rooms used in the examples\<close>

definition sock_a :: socket where
  "sock_a = Socket (''srv'', 5000) (''a'', 40001)"

definition sock_b :: socket where
  "sock_b = Socket (''srv'', 5000) (''b'', 40002)"

definition sock_v :: socket where
  "sock_v = Socket (''srv'', 5000) (''v'', 40003)"

text \<open>A room in progress: \<open>sock_a\<close> created it, \<open>sock_b\<close> joined as player.\<close>

definition room_ab :: "int list list \<Rightarrow> socket \<Rightarrow> room" where
  "room_ab m mover =
     \<lparr> players = [sock_a, sock_b], viewers = [sock_v], max_players = 2, matrix = m,
       current_player = mover, has_end = False, status_code = ''3'', has_began = True \<rparr>"

text \<open>A server with that one room, named \<open>r1\<close>, and the three connections logged in.\<close>

definition srv_ab :: "int list list \<Rightarrow> socket \<Rightarrow> server" where
  "srv_ab m mover =
     \<lparr> rooms = [(''r1'', room_ab m mover)],
       clients = [(sock_v, None), (sock_a, Some ''r1''), (sock_b, Some ''r1'')],
       authenticated_clients = [(sock_a, ''alice''), (sock_b, ''bob''), (sock_v, ''vera'')],
       users = [],
       sent = [] \<rparr>"

text \<open>The server after \<open>sock_a\<close> has won in room \<open>r1\<close> with the top row.\<close>

definition srv_after_win :: server where
  "srv_after_win =
     \<lparr> rooms = [],
       clients = [(sock_v, None), (sock_a, None), (sock_b, None)],
       authenticated_clients = [(sock_a, ''alice''), (sock_b, ''bob''), (sock_v, ''vera'')],
       users = [],
       sent = [(sock_a, ''GAMEEND:111220000:0:alice''), (sock_b, ''GAMEEND:111220000:0:alice''),
               (sock_v, ''GAMEEND:111220000:0:alice'')] \<rparr>"

text \<open>The server after \<open>sock_a\<close> has forfeited in room \<open>r1\<close> on an empty board.\<close>

definition srv_after_forfeit :: server where
  "srv_after_forfeit =
     \<lparr> rooms = [],
       clients = [(sock_v, None), (sock_a, None), (sock_b, None)],
       authenticated_clients = [(sock_a, ''alice''), (sock_b, ''bob''), (sock_v, ''vera'')],
       users = [],
       sent = [(sock_a, ''GAMEEND:000000000:2:bob''), (sock_b, ''GAMEEND:000000000:2:bob''),
               (sock_v, ''GAMEEND:000000000:2:bob'')] \<rparr>"

text \<open>
  The scenario of the specification: \<open>sock_a\<close> creates room \<open>r1\<close>, \<open>sock_v\<close> joins as
  viewer, \<open>sock_b\<close> joins as player.  \<open>begun_room a b vs\<close> is a room right after its
  second player joined, with viewers \<open>vs\<close>.
\<close>

definition begun_room :: "socket \<Rightarrow> socket \<Rightarrow> socket list \<Rightarrow> room" where
  "begun_room a b vs = (update (Room a) b ''PLAYER'')\<lparr>viewers := vs\<rparr>"

definition srv_start :: server where
  "srv_start =
     \<lparr> rooms = [],
       clients = [(sock_a, None), (sock_b, None), (sock_v, None)],
       authenticated_clients = [(sock_a, ''alice''), (sock_b, ''bob''), (sock_v, ''vera'')],
       users = [],
       sent = [] \<rparr>"

definition srv_created :: server where
  "srv_created =
     srv_start\<lparr> rooms := [(''r1'', Room sock_a)],
                clients := [(sock_b, None), (sock_v, None), (sock_a, Some ''r1'')],
                sent := [(sock_a, ''CREATE:ACKSTATUS:0'')] \<rparr>"

definition srv_viewed :: server where
  "srv_viewed =
     srv_created\<lparr> rooms := [(''r1'', (Room sock_a)\<lparr>viewers := [sock_v]\<rparr>)],
                  sent := [(sock_a, ''CREATE:ACKSTATUS:0''), (sock_v, ''JOIN:ACKSTATUS:0'')] \<rparr>"

definition srv_begun :: server where
  "srv_begun =
     srv_viewed\<lparr> rooms := [(''r1'', begun_room sock_a sock_b [sock_v])],
                 clients := [(sock_v, None), (sock_a, Some ''r1''), (sock_b, Some ''r1'')],
                 sent := [(sock_a, ''CREATE:ACKSTATUS:0''), (sock_v, ''JOIN:ACKSTATUS:0''),
                          (sock_b, ''JOIN:ACKSTATUS:0''), (sock_a, ''BEGIN:alice:bob''),
                          (sock_b, ''BEGIN:alice:bob''), (sock_v, ''INPROGRESS:alice:bob'')] \<rparr>"

text \<open>A server where \<open>alice\<close> and \<open>bob\<close> are registered and \<open>sock_a\<close> is logged in as
  \<open>alice\<close>.  In the examples the stored hash is the password itself and the password
  check is equality.\<close>

definition srv_users :: server where
  "srv_users = srv_start\<lparr> users := [(''alice'', ''pw-a''), (''bob'', ''pw-b'')],
                           authenticated_clients := [(sock_a, ''alice'')] \<rparr>"



text \<open>
  \<open>srv_window\<close> is the server between the two parts of the \<open>place\<close> with which \<open>sock_a\<close>
  completes the top row: the room after the move is stored, nothing is sent and the room
  is not removed yet.  \<open>srv_after_race\<close> is the server after \<open>sock_b\<close> has placed at
  column 2, row 2 in that state.
\<close>

definition srv_window :: server where
  "srv_window =
     (srv_ab [[1, 1, 0], [2, 2, 0], [0, 0, 0]] sock_a)
       \<lparr>rooms := [(''r1'', (room_ab [[1, 1, 1], [2, 2, 0], [0, 0, 0]] sock_b)
                             \<lparr>has_end := True, status_code := ''0''\<rparr>)]\<rparr>"

definition srv_after_race :: server where
  "srv_after_race =
     \<lparr> rooms = [],
       clients = [(sock_v, None), (sock_b, None), (sock_a, None)],
       authenticated_clients = [(sock_a, ''alice''), (sock_b, ''bob''), (sock_v, ''vera'')],
       users = [],
       sent = [(sock_b, ''GAMEEND:111220002:0:bob''), (sock_a, ''GAMEEND:111220002:0:bob''),
               (sock_v, ''GAMEEND:111220002:0:bob'')] \<rparr>"

section \<open>Invariants of the registry\<close>

text \<open>No room that is stored in \<open>rooms\<close> has ended.\<close>

definition no_ended_room :: "server \<Rightarrow> bool" where
  "no_ended_room st \<longleftrightarrow> list_all (\<lambda>(name, r). \<not> has_end r) (rooms st)"

section \<open>Basic facts\<close>

lemma is_same_socket_eq [simp]: "is_same_socket s t \<longleftrightarrow> s = t"
  by (cases s; cases t) (auto simp: is_same_socket_def)

lemma sock_distinct [simp]:
  "sock_a \<noteq> sock_b" "sock_b \<noteq> sock_a" "sock_a \<noteq> sock_v" "sock_v \<noteq> sock_a"
  "sock_b \<noteq> sock_v" "sock_v \<noteq> sock_b"
  by (simp_all add: sock_a_def sock_b_def sock_v_def)

lemma upt3: "[0 ..< 3] = [0, 1, 2::nat]"
  by code_simp

lemma py_index_in_range:
  "0 \<le> i \<Longrightarrow> i < int (length xs) \<Longrightarrow> py_index xs i = Inr (nat i)"
  by (simp add: py_index_def)

lemma py_index_Inr: "py_index xs i = Inr k \<Longrightarrow> k < length xs"
  by (auto simp: py_index_def Let_def split: if_splits)

lemma getitem_0 [simp]: "getitem (x # xs) 0 = Inr x"
  by (simp add: getitem_def py_index_def)

lemma getitem_1 [simp]: "getitem (x # y # xs) 1 = Inr y"
  by (simp add: getitem_def py_index_def)

lemma getitem_1_single [simp]: "getitem [x] 1 = Inl IndexError"
  by (simp add: getitem_def py_index_def)

lemma getitem_Nil [simp]: "getitem [] i = Inl IndexError"
  by (simp add: getitem_def py_index_def)

lemma board_shape_cases:
  assumes "board_shape m"
  obtains a b c d e f g h i where "m = [[a, b, c], [d, e, f], [g, h, i]]"
proof -
  from assms obtain r0 r1 r2 where m: "m = [r0, r1, r2]"
    by (auto simp: board_shape_def length_Suc_conv numeral_3_eq_3)
  with assms have "length r0 = 3" "length r1 = 3" "length r2 = 3"
    by (simp_all add: board_shape_def)
  then obtain a b c d e f g h i where "r0 = [a, b, c]" "r1 = [d, e, f]" "r2 = [g, h, i]"
    by (auto simp: length_Suc_conv numeral_3_eq_3)
  with m show ?thesis using that by blast
qed

lemma board_shape_literal [simp]: "board_shape [[a, b, c], [d, e, f], [g, h, i]]"
  by (simp add: board_shape_def)

lemma board_shape_Room: "board_shape (matrix (Room s))"
  by (simp add: Room_def board_shape_def numeral_3_eq_3)

lemma set_cell_shape:
  assumes "board_shape m" and "set_cell m row column v = Inr m'"
  shows "board_shape m'"
proof -
  from assms(2) obtain i j where "m' = m[i := (m ! i)[j := v]]" and "i < length m"
    by (auto simp: set_cell_def split: sum.splits dest: py_index_Inr)
  with assms(1) show ?thesis
    by (auto simp: board_shape_def list_all_length nth_list_update)
qed

lemma matrix_check_end_status [simp]: "matrix (check_end_status r) = matrix r"
  by (simp add: check_end_status_def)

lemma players_check_end_status [simp]: "players (check_end_status r) = players r"
  by (simp add: check_end_status_def)

lemma viewers_check_end_status [simp]: "viewers (check_end_status r) = viewers r"
  by (simp add: check_end_status_def)

lemma current_player_check_end_status [simp]:
  "current_player (check_end_status r) = current_player r"
  by (simp add: check_end_status_def)

lemma has_began_check_end_status [simp]: "has_began (check_end_status r) = has_began r"
  by (simp add: check_end_status_def)

subsection \<open>The win checks against the eight lines\<close>

lemma uniform_lines_nonempty:
  "uniform_lines m \<noteq> [] \<longleftrightarrow> list_ex (line_uniform m) lines8"
  by (simp add: uniform_lines_def filter_empty_conv list_ex_iff)

lemma any_line_iff:
  assumes "board_shape (matrix r)"
  shows "(check_rows r \<or> check_columns r \<or> check_diagonals r)
           \<longleftrightarrow> uniform_lines (matrix r) \<noteq> []"
proof -
  from assms obtain a b c d e f g h i where m: "matrix r = [[a, b, c], [d, e, f], [g, h, i]]"
    by (rule board_shape_cases)
  have rows: "check_rows r \<longleftrightarrow>
      (a = b \<and> b = c \<and> a \<noteq> 0) \<or> (d = e \<and> e = f \<and> d \<noteq> 0) \<or> (g = h \<and> h = i \<and> g \<noteq> 0)"
    by (simp add: check_rows_def m)
  have cols: "check_columns r \<longleftrightarrow>
      (a = d \<and> d = g \<and> a \<noteq> 0) \<or> (b = e \<and> e = h \<and> b \<noteq> 0) \<or> (c = f \<and> f = i \<and> c \<noteq> 0)"
    by (simp add: check_columns_def m upt3)
  have diags: "check_diagonals r \<longleftrightarrow>
      (a = e \<and> e = i \<and> a \<noteq> 0) \<or> (c = e \<and> e = g \<and> c \<noteq> 0)"
    by (simp add: check_diagonals_def m)
  have lines: "list_ex (line_uniform (matrix r)) lines8 \<longleftrightarrow>
      (a \<noteq> 0 \<and> a = b \<and> b = c) \<or> (d \<noteq> 0 \<and> d = e \<and> e = f) \<or> (g \<noteq> 0 \<and> g = h \<and> h = i)
    \<or> (a \<noteq> 0 \<and> a = d \<and> d = g) \<or> (b \<noteq> 0 \<and> b = e \<and> e = h) \<or> (c \<noteq> 0 \<and> c = f \<and> f = i)
    \<or> (a \<noteq> 0 \<and> a = e \<and> e = i) \<or> (c \<noteq> 0 \<and> c = e \<and> e = g)"
    by (simp add: lines8_def line_uniform_def m)
  show ?thesis
    unfolding uniform_lines_nonempty rows cols diags lines by auto
qed

lemma full_iff: "is_board_full r \<longleftrightarrow> no_empty_cell (matrix r)"
  by (auto simp: is_board_full_def no_empty_cell_def list_all_iff)

subsection \<open>Writing a cell\<close>

lemma update_matrix_two_players:
  assumes "players r = [p0, p1]"
  shows "update_matrix r row column =
     (case set_cell (matrix r) row column (if current_player r = p0 then 1 else 2) of
        Inl e \<Rightarrow> Inl e
      | Inr m \<Rightarrow> Inr (check_end_status
                       (r\<lparr>matrix := m, current_player := (if current_player r = p0 then p1 else p0)\<rparr>)))"
  using assms by (simp add: update_matrix_def split: sum.splits)

lemma set_cell_in_range:
  assumes "board_shape m" "0 \<le> row" "row \<le> 2" "0 \<le> column" "column \<le> 2"
  shows "set_cell m row column v = Inr (m[nat row := (m ! nat row)[nat column := v]])"
proof -
  from assms(1) have len: "length m = 3" and rows: "\<And>i. i < 3 \<Longrightarrow> length (m ! i) = 3"
    by (auto simp: board_shape_def list_all_length)
  have r: "py_index m row = Inr (nat row)"
    using assms len by (simp add: py_index_in_range)
  have "nat row < 3" using assms by simp
  then have "length (m ! nat row) = 3" by (rule rows)
  then have c: "py_index (m ! nat row) column = Inr (nat column)"
    using assms by (simp add: py_index_in_range)
  show ?thesis by (simp add: set_cell_def r c)
qed

lemma set_cell_in_range_nth:
  assumes "board_shape m" "0 \<le> row" "row \<le> 2" "0 \<le> column" "column \<le> 2"
    and "set_cell m row column v = Inr m'"
  shows "m' ! nat row ! nat column = v"
    and "\<And>i j. (i, j) \<noteq> (nat row, nat column) \<Longrightarrow> m' ! i ! j = m ! i ! j"
proof -
  from assms(1) have len: "length m = 3" and rows: "\<And>i. i < 3 \<Longrightarrow> length (m ! i) = 3"
    by (auto simp: board_shape_def list_all_length)
  have m': "m' = m[nat row := (m ! nat row)[nat column := v]]"
    using set_cell_in_range [OF assms(1-5), of v] assms(6) by simp
  have lt: "nat row < 3" "nat column < 3" using assms by simp_all
  show "m' ! nat row ! nat column = v"
    using lt len rows [of "nat row"] by (simp add: m')
  show "m' ! i ! j = m ! i ! j" if "(i, j) \<noteq> (nat row, nat column)" for i j
    using that lt len by (cases "i = nat row") (auto simp: m' nth_list_update)
qed

subsection \<open>Evaluating the handlers on concrete input\<close>

lemma str_int_marks [simp]: "str_int 0 = ''0''" "str_int 1 = ''1''" "str_int 2 = ''2''"
  by (simp_all add: str_int_def str_nat.simps digit_char_def)

lemma py_int_examples [simp]:
  "py_int ''0'' = Inr 0" "py_int ''1'' = Inr 1" "py_int ''2'' = Inr 2"
  "py_int ''3'' = Inr 3" "py_int ''-1'' = Inr (- 1)"
  by (simp_all add: py_int_def is_int_space_def is_digit_def digits_value_def digit_val_def)

lemma get_another_player_two:
  assumes "players r = [p0, p1]"
  shows "get_another_player r s = Inr (if p0 = s then p1 else p0)"
  using assms
  by (simp add: get_another_player_def find_player_index.simps [of _ _ 0]
      find_player_index.simps [of _ _ "Suc 0"] find_player_index.simps [of _ _ "Suc (Suc 0)"]
      getitem_def py_index_def)

lemma get_matrix_in_string_literal:
  "matrix r = [[a, b, c], [d, e, f], [g, h, i]] \<Longrightarrow>
   get_matrix_in_string r = str_int a @ str_int b @ str_int c @ str_int d @ str_int e @ str_int f
      @ str_int g @ str_int h @ str_int i"
  by (simp add: get_matrix_in_string_def)

section \<open>End-state evaluation\<close>

text \<open>
  C3 (as amended).  On a room that has not ended (status code 3), \<open>check_end_status\<close>
  records a win (status code 0) iff at least one of the eight lines is uniformly
  non-empty, a draw (status code 1) iff no cell is empty and no line is uniform, and
  leaves the room ongoing (status code 3) iff some cell is empty and no line is uniform;
  the three outcomes exclude each other and cover every 3 by 3 board, \<open>has_end\<close> is set
  exactly for win and draw, and the board itself is not touched.
\<close>

theorem check_end_status_outcome:
  assumes "board_shape (matrix r)" and "status_code r = ''3''" and "\<not> has_end r"
  shows "(status_code (check_end_status r) = ''0'' \<longleftrightarrow> uniform_lines (matrix r) \<noteq> [])
       \<and> (status_code (check_end_status r) = ''1''
            \<longleftrightarrow> no_empty_cell (matrix r) \<and> uniform_lines (matrix r) = [])
       \<and> (status_code (check_end_status r) = ''3''
            \<longleftrightarrow> \<not> no_empty_cell (matrix r) \<and> uniform_lines (matrix r) = [])
       \<and> (has_end (check_end_status r) \<longleftrightarrow> status_code (check_end_status r) \<noteq> ''3'')
       \<and> matrix (check_end_status r) = matrix r"
proof -
  note any = any_line_iff [OF assms(1)]
  show ?thesis
  proof (cases "uniform_lines (matrix r) \<noteq> []")
    case True
    with any have "check_rows r \<or> check_columns r \<or> check_diagonals r" by simp
    then show ?thesis using True by (simp add: check_end_status_def)
  next
    case False
    with any have none: "\<not> (check_rows r \<or> check_columns r \<or> check_diagonals r)" by simp
    show ?thesis
    proof (cases "is_board_full r")
      case True
      then show ?thesis using none False
        by (simp add: check_end_status_def full_iff [symmetric])
    next
      case full: False
      then show ?thesis using none False assms(2,3)
        by (simp add: check_end_status_def full_iff [symmetric])
    qed
  qed
qed

theorem check_end_status_outcome_witness:
  "board_shape (matrix (room_ab [[1, 1, 1], [2, 2, 0], [0, 0, 0]] sock_b))
   \<and> status_code (room_ab [[1, 1, 1], [2, 2, 0], [0, 0, 0]] sock_b) = ''3''
   \<and> \<not> has_end (room_ab [[1, 1, 1], [2, 2, 0], [0, 0, 0]] sock_b)
   \<and> uniform_lines (matrix (room_ab [[1, 1, 1], [2, 2, 0], [0, 0, 0]] sock_b)) \<noteq> []
   \<and> status_code (check_end_status (room_ab [[1, 1, 1], [2, 2, 0], [0, 0, 0]] sock_b)) = ''0''
   \<and> has_end (check_end_status (room_ab [[1, 1, 1], [2, 2, 0], [0, 0, 0]] sock_b))"
  using check_end_status_outcome [of "room_ab [[1, 1, 1], [2, 2, 0], [0, 0, 0]] sock_b"]
  by (simp add: room_ab_def uniform_lines_def lines8_def line_uniform_def)

text \<open>
  The claim as written asks for exactly one uniform line.  The last move of a game can
  complete two lines at once: with the board below and \<open>sock_a\<close> to move, the placement at
  row 0, column 0 completes the top row and the left column.
\<close>

theorem check_end_status_two_lines_counterexample:
  "update_matrix (room_ab [[0, 1, 1], [1, 2, 2], [1, 2, 2]] sock_a) 0 0
     = Inr ((room_ab [[1, 1, 1], [1, 2, 2], [1, 2, 2]] sock_b)
              \<lparr>has_end := True, status_code := ''0''\<rparr>)
   \<and> status_code (check_end_status (room_ab [[1, 1, 1], [1, 2, 2], [1, 2, 2]] sock_b)) = ''0''
   \<and> length (uniform_lines [[1, 1, 1], [1, 2, 2], [1, 2, 2]]) = 2"
  by (simp add: room_ab_def update_matrix_def set_cell_def py_index_def check_end_status_def
      check_rows_def check_columns_def check_diagonals_def upt3
      uniform_lines_def lines8_def line_uniform_def)

section \<open>Who moves first, and with which mark\<close>

text \<open>
  C10.  A new room has its creator in player slot 0 and as the current mover, and the
  second player joining changes neither.  In a room of the creator and a second, different
  connection, an accepted placement made when the creator is the mover writes mark 1 and
  hands the turn to the second player, and one made when the second player is the mover
  writes mark 2 and hands the turn back; so the first placement in a room is the creator's.
\<close>

theorem creator_moves_first:
  assumes "players r = [creator, second]" and "creator \<noteq> second"
    and "update_matrix r row column = Inr r'"
  shows "players (Room creator) = [creator] \<and> current_player (Room creator) = creator
       \<and> players (update (Room creator) second ''PLAYER'') = [creator, second]
       \<and> current_player (update (Room creator) second ''PLAYER'') = creator
       \<and> matrix (update (Room creator) second ''PLAYER'') = matrix (Room creator)
       \<and> players r' = [creator, second]
       \<and> (current_player r = creator \<longrightarrow>
             set_cell (matrix r) row column 1 = Inr (matrix r') \<and> current_player r' = second)
       \<and> (current_player r = second \<longrightarrow>
             set_cell (matrix r) row column 2 = Inr (matrix r') \<and> current_player r' = creator)
       \<and> (board_shape (matrix r) \<and> 0 \<le> row \<and> row \<le> 2 \<and> 0 \<le> column \<and> column \<le> 2 \<longrightarrow>
             matrix r' ! nat row ! nat column = (if current_player r = creator then 1 else 2))"
proof -
  have new: "players (Room creator) = [creator] \<and> current_player (Room creator) = creator
       \<and> players (update (Room creator) second ''PLAYER'') = [creator, second]
       \<and> current_player (update (Room creator) second ''PLAYER'') = creator
       \<and> matrix (update (Room creator) second ''PLAYER'') = matrix (Room creator)"
    by (simp add: Room_def update_def)
  from assms(3) obtain m where
    m: "set_cell (matrix r) row column (if current_player r = creator then 1 else 2) = Inr m"
    and r': "r' = check_end_status
               (r\<lparr>matrix := m,
                   current_player := (if current_player r = creator then second else creator)\<rparr>)"
    unfolding update_matrix_two_players [OF assms(1)] by (auto split: sum.splits)
  have mr: "matrix r' = m" and pr: "players r' = [creator, second]"
    and cr: "current_player r' = (if current_player r = creator then second else creator)"
    using assms(1) by (simp_all add: r')
  have cell: "matrix r' ! nat row ! nat column = (if current_player r = creator then 1 else 2)"
    if "board_shape (matrix r)" "0 \<le> row" "row \<le> 2" "0 \<le> column" "column \<le> 2"
    using set_cell_in_range_nth(1) [OF that m] by (simp add: mr)
  show ?thesis
    using new m mr pr cr cell assms(2) by auto
qed

theorem creator_moves_first_witness:
  "players (room_ab [[0, 0, 0], [0, 0, 0], [0, 0, 0]] sock_a) = [sock_a, sock_b]
   \<and> sock_a \<noteq> sock_b
   \<and> update_matrix (room_ab [[0, 0, 0], [0, 0, 0], [0, 0, 0]] sock_a) 0 0
       = Inr (room_ab [[1, 0, 0], [0, 0, 0], [0, 0, 0]] sock_b)
   \<and> current_player (room_ab [[0, 0, 0], [0, 0, 0], [0, 0, 0]] sock_a) = sock_a
   \<and> board_shape (matrix (room_ab [[0, 0, 0], [0, 0, 0], [0, 0, 0]] sock_a))
   \<and> matrix (room_ab [[1, 0, 0], [0, 0, 0], [0, 0, 0]] sock_b) ! nat 0 ! nat 0 = 1
   \<and> current_player (room_ab [[1, 0, 0], [0, 0, 0], [0, 0, 0]] sock_b) = sock_b"
  using creator_moves_first [of "room_ab [[0, 0, 0], [0, 0, 0], [0, 0, 0]] sock_a" sock_a sock_b
      0 0 "room_ab [[1, 0, 0], [0, 0, 0], [0, 0, 0]] sock_b"]
  by (simp add: room_ab_def update_matrix_def set_cell_def py_index_def check_end_status_def
      check_rows_def check_columns_def check_diagonals_def is_board_full_def upt3)

subsection \<open>The two players of a match are different connections\<close>

text \<open>
  When the creator of a room joins it as second player, \<open>join_room\<close> stores the room and
  then raises while it builds the \<open>BEGIN\<close> message: the loop over the logged-in users
  binds \<open>player_1\<close> and never \<open>player_2\<close>.  The exception ends the handler of that
  connection, so no match is played in such a room.
\<close>

lemma names_loop_same_target:
  "names_loop auth t t us (p1, None) = Inr (q1, q2) \<Longrightarrow> q2 = None"
proof (induction us arbitrary: p1)
  case Nil
  then show ?case by simp
next
  case (Cons user us)
  then show ?case
    by (auto split: option.splits if_splits)
qed

lemma join_own_room_raises:
  assumes "map_of (rooms st) room_name = Some r0" and "players r0 = [s]" and "max_players r0 = 2"
  shows "\<exists>e st'. join_room [room_name, ''PLAYER''] s st = Raised e st'"
proof -
  let ?r = "update r0 s ''PLAYER''"
  have p: "players ?r = [s, s]" using assms(2,3) by (simp add: update_def)
  have full: "\<not> able_to_add_player ?r"
    using assms(2,3) by (simp add: able_to_add_player_def update_def)
  have ack: "fst (join r0 ''PLAYER'') = ''JOIN:ACKSTATUS:0''"
    using assms(2,3) by (simp add: join_def)
  have other: "get_another_player ?r s = Inr s"
    by (simp add: get_another_player_two [OF p])
  show ?thesis
  proof (cases "names_loop (authenticated_clients st) s s
                  (map snd (authenticated_clients st)) (None, None)")
    case (Inl e)
    then show ?thesis
      by (simp add: join_room_def Let_def assms(1) ack full other)
  next
    case (Inr q)
    obtain q1 q2 where q: "q = (q1, q2)" by (cases q)
    with Inr names_loop_same_target have "q2 = None" by blast
    with Inr q show ?thesis
      by (cases q1) (simp_all add: join_room_def Let_def assms(1) ack full other)
  qed
qed

section \<open>At most two players\<close>

lemma update_matrix_players:
  "update_matrix r row column = Inr r' \<Longrightarrow> players r' = players r \<and> max_players r' = max_players r"
  by (auto simp: update_matrix_def check_end_status_def split: sum.splits if_splits)

lemma room_step_bound:
  assumes "length (players r) \<le> 2 \<and> max_players r = 2"
  shows "length (players (room_step r op)) \<le> 2 \<and> max_players (room_step r op) = 2"
proof (cases op)
  case (Join s mode)
  then show ?thesis using assms by (simp add: update_def)
next
  case (JoinReply mode)
  then show ?thesis using assms by (simp add: join_def)
next
  case (Place row column)
  then show ?thesis using assms
    by (auto split: sum.splits dest: update_matrix_players)
qed

lemma lifetime_bound:
  "length (players r) \<le> 2 \<and> max_players r = 2 \<Longrightarrow>
   length (players (foldl room_step r ops)) \<le> 2 \<and> max_players (foldl room_step r ops) = 2"
proof (induction ops arbitrary: r)
  case Nil
  then show ?case by simp
next
  case (Cons op ops)
  from room_step_bound [OF Cons.prems] show ?case
    by (simp add: Cons.IH)
qed

lemma join_room_full:
  assumes "map_of (rooms st) room_name = Some r"
    and "length (players r) = 2" and "max_players r = 2"
  shows "join_room [room_name, ''PLAYER''] sender st
           = Returned (sendall sender ''JOIN:ACKSTATUS:2'' st)"
  using assms
  by (simp add: join_room_def join_def update_def AList.update_triv Let_def)

text \<open>
  C6.  At every point of its lifetime a room holds at most 2 players, and a PLAYER join
  on a room that holds 2 players is answered \<open>JOIN:ACKSTATUS:2\<close>, with nothing else sent
  and the server state, the room and its players included, left as it was.
\<close>

theorem room_holds_at_most_two_players:
  "length (players (foldl room_step (Room creator) ops)) \<le> 2
   \<and> (length (players (foldl room_step (Room creator) ops)) = 2
        \<and> map_of (rooms st) room_name = Some (foldl room_step (Room creator) ops)
      \<longrightarrow> join_room [room_name, ''PLAYER''] joiner st
            = Returned (sendall joiner ''JOIN:ACKSTATUS:2'' st))"
proof -
  have "length (players (Room creator)) \<le> 2 \<and> max_players (Room creator) = 2"
    by (simp add: Room_def)
  from lifetime_bound [OF this, of ops] show ?thesis
    by (auto intro: join_room_full)
qed

theorem room_holds_at_most_two_players_witness:
  "foldl room_step (Room sock_a) [Join sock_b ''PLAYER'', Join sock_v ''PLAYER'']
     = (Room sock_a)\<lparr>players := [sock_a, sock_b], has_began := True\<rparr>
   \<and> join_room [''r1'', ''PLAYER''] sock_v
       \<lparr>rooms = [(''r1'', foldl room_step (Room sock_a) [Join sock_b ''PLAYER'', Join sock_v ''PLAYER''])],
        clients = [], authenticated_clients = [(sock_v, ''vera'')], users = [], sent = []\<rparr>
     = Returned
       \<lparr>rooms = [(''r1'', foldl room_step (Room sock_a) [Join sock_b ''PLAYER'', Join sock_v ''PLAYER''])],
        clients = [], authenticated_clients = [(sock_v, ''vera'')], users = [],
        sent = [(sock_v, ''JOIN:ACKSTATUS:2'')]\<rparr>"
  using room_holds_at_most_two_players [of sock_a "[Join sock_b ''PLAYER'', Join sock_v ''PLAYER'']"
     "\<lparr>rooms = [(''r1'', foldl room_step (Room sock_a) [Join sock_b ''PLAYER'', Join sock_v ''PLAYER''])],
        clients = [], authenticated_clients = [(sock_v, ''vera'')], users = [], sent = []\<rparr>"
     "''r1''" sock_v]
  by (simp add: Room_def update_def sendall_def)

section \<open>Whose turn it is\<close>

lemma get_current_player_two:
  assumes "players r = [p0, p1]" and "current_player r = p0 \<or> current_player r = p1"
  shows "get_current_player r = Inr (current_player r)"
  using assms by (auto simp: get_current_player_def)

lemma get_next_turn_player_two:
  assumes "players r = [p0, p1]"
  shows "get_next_turn_player r = Inr (if current_player r = p0 then p1 else p0)"
  using assms by (auto simp: get_next_turn_player_def)

lemma wait_for_turn_leaves:
  "must_wait r s = Inr False \<Longrightarrow> wait_for_turn r s = Some None"
  by (subst wait_for_turn.simps) simp

lemma wait_for_turn_returns:
  assumes "wait_for_turn r s = Some y"
  shows "must_wait r s \<noteq> Inr True \<or> may_break r s \<noteq> Inr False"
proof (rule wait_for_turn.raw_induct
    [where P = "\<lambda>r s y. must_wait r s \<noteq> Inr True \<or> may_break r s \<noteq> Inr False", OF _ assms])
  fix wait r s y
  assume IH: "\<And>r s y. wait r s = Some y \<Longrightarrow>
                 must_wait r s \<noteq> Inr True \<or> may_break r s \<noteq> Inr False"
    and step: "(case must_wait r s of
                  Inl e \<Rightarrow> Some (Some e)
                | Inr waiting \<Rightarrow>
                    if waiting then
                      (case may_break r s of
                         Inl e \<Rightarrow> Some (Some e)
                       | Inr leave \<Rightarrow> if leave then Some None else wait r s)
                    else Some None) = Some y"
  show "must_wait r s \<noteq> Inr True \<or> may_break r s \<noteq> Inr False"
  proof (rule ccontr)
    assume "\<not> (must_wait r s \<noteq> Inr True \<or> may_break r s \<noteq> Inr False)"
    then have held: "must_wait r s = Inr True" "may_break r s = Inr False" by simp_all
    with step have "wait r s = Some y" by simp
    from IH [OF this] held show False by simp
  qed
qed

lemma find_player_room_found:
  "find_player_room rs keys s acc = Inr (Some n) \<Longrightarrow>
     acc = Some n \<or> (\<exists>r. map_of rs n = Some r \<and> in_room_as_a_player r s)"
proof (induction keys arbitrary: acc)
  case Nil
  then show ?case by simp
next
  case (Cons k keys)
  then show ?case
    by (fastforce split: option.splits if_splits)
qed

lemma wait_for_turn_held_back:
  assumes "must_wait r s = Inr True" and "may_break r s = Inr False"
  shows "wait_for_turn r s = None"
proof (cases "wait_for_turn r s")
  case None
  then show ?thesis .
next
  case (Some y)
  from wait_for_turn_returns [OF this] assms show ?thesis by simp
qed

lemma not_mover_waits:
  assumes "players r = [p0, p1]" and "current_player r = p0 \<or> current_player r = p1"
    and "s \<noteq> current_player r"
  shows "wait_for_turn r s = None"
proof -
  have "must_wait r s = Inr True" "may_break r s = Inr False"
    using assms by (auto simp: must_wait_def may_break_def get_current_player_two [OF assms(1,2)])
  then show ?thesis by (rule wait_for_turn_held_back)
qed

lemma mover_leaves:
  assumes "players r = [p0, p1]" and "current_player r = p0 \<or> current_player r = p1"
    and "has_began r"
  shows "wait_for_turn r (current_player r) = Some None"
  using assms
  by (intro wait_for_turn_leaves) (simp add: must_wait_def get_current_player_two [OF assms(1,2)])

section \<open>The board as a string\<close>

lemma str_int_mark: "c = 0 \<or> c = 1 \<or> c = 2 \<Longrightarrow> str_int c = [mark_char c]"
  by (auto simp: mark_char_def)

lemma concat_str_int_marks:
  "list_all (\<lambda>c. c = 0 \<or> c = 1 \<or> c = 2) cs \<Longrightarrow> concat (map str_int cs) = map mark_char cs"
  by (induction cs) (auto simp: str_int_mark)

lemma get_matrix_in_string_marks:
  assumes "board_shape (matrix r)" and "board_marks (matrix r)"
  shows "get_matrix_in_string r = map mark_char (concat (matrix r))"
    and "length (get_matrix_in_string r) = 9"
proof -
  show eq: "get_matrix_in_string r = map mark_char (concat (matrix r))"
    using assms(2) by (simp add: get_matrix_in_string_def board_marks_def concat_str_int_marks)
  from assms(1) obtain a b c d e f g h i where "matrix r = [[a, b, c], [d, e, f], [g, h, i]]"
    by (rule board_shape_cases)
  then show "length (get_matrix_in_string r) = 9" by (simp add: eq)
qed

section \<open>Commands of a player in a room\<close>

lemma handle_message_player:
  assumes "players r = [p0, p1]" and "current_player r = p0 \<or> current_player r = p1"
    and "check_authorizations sender_socket (authenticated_clients st)"
    and "find_player_room (rooms st) (map fst (rooms st)) sender_socket None = Inr (Some roomname)"
    and "map_of (rooms st) roomname = Some r"
    and "split CHR '':'' message ! 0 \<notin> {''LOGIN'', ''REGISTER'', ''ROOMLIST'', ''CREATE'', ''JOIN''}"
  shows "handle_message checkpw register sender_socket message st
           = (if sender_socket = current_player r \<and> has_began r
              then Some (if split CHR '':'' message ! 0 = ''PLACE''
                         then place (split CHR '':'' message) sender_socket roomname st
                         else if split CHR '':'' message ! 0 = ''FORFEIT''
                         then forfeit sender_socket roomname st
                         else Returned st)
              else None)"
proof -
  from find_player_room_found [OF assms(4)] assms(5)
  have inroom: "in_room_as_a_player r sender_socket" by auto
  show ?thesis
  proof (cases "sender_socket = current_player r \<and> has_began r")
    case True
    then have "wait_for_turn r sender_socket = Some None"
      using mover_leaves [OF assms(1,2)] by simp
    then show ?thesis
      using assms(3-6) inroom True by (simp add: handle_message_def Let_def)
  next
    case False
    have "must_wait r sender_socket = Inr True" "may_break r sender_socket = Inr False"
      using False by (auto simp: must_wait_def may_break_def get_current_player_two [OF assms(1,2)])
    then have "wait_for_turn r sender_socket = None" by (rule wait_for_turn_held_back)
    then show ?thesis
      using assms(3-6) inroom False by (simp add: handle_message_def Let_def)
  qed
qed

lemma place_raises:
  assumes "map_of (rooms st) roomname = Some r"
    and "getitem sm 2 = Inr f2" "py_int f2 = Inr row"
    and "getitem sm 1 = Inr f1" "py_int f1 = Inr column"
    and "update_matrix r row column = Inl e"
  shows "place sm s roomname st = Raised e st"
  using assms by (simp add: place_def)

lemma place_accepted:
  assumes "map_of (rooms st) roomname = Some r" and "players r = [p0, p1]"
    and "getitem sm 2 = Inr f2" "py_int f2 = Inr row"
    and "getitem sm 1 = Inr f1" "py_int f1 = Inr column"
    and "update_matrix r row column = Inr r'" and "\<not> has_end r'"
  shows "place sm s roomname st =
     Returned (st\<lparr>rooms := AList.update roomname r' (rooms st),
                  sent := sent st @ [(s, ''BOARDSTATUS:'' @ get_matrix_in_string r'),
                                     (if p0 = s then p1 else p0,
                                      ''BOARDSTATUS:'' @ get_matrix_in_string r')]
                            @ send_to_all_viewers r' (''BOARDSTATUS:'' @ get_matrix_in_string r')\<rparr>)"
proof -
  from update_matrix_players [OF assms(7)] assms(2) have "players r' = [p0, p1]" by simp
  from get_another_player_two [OF this]
  have "get_another_player r' s = Inr (if p0 = s then p1 else p0)" .
  with assms show ?thesis
    by (simp add: place_def place_board_status_def)
qed


lemma srv_ab_player:
  assumes "s = sock_a \<or> s = sock_b"
  shows "check_authorizations s (authenticated_clients (srv_ab m mover))"
    and "find_player_room (rooms (srv_ab m mover)) (map fst (rooms (srv_ab m mover))) s None
           = Inr (Some ''r1'')"
  using assms
  by (auto simp: srv_ab_def room_ab_def check_authorizations_def in_room_as_a_player_def)

lemma srv_ab_room: "map_of (rooms (srv_ab m mover)) ''r1'' = Some (room_ab m mover)"
  by (simp add: srv_ab_def)

section \<open>The waiting loop on the shared dictionary\<close>

lemma place_in_two_steps:
  "place splited_message sender_socket roomname st =
     (case place_store splited_message sender_socket roomname st of
        Inl e \<Rightarrow> Raised e st
      | Inr st1 \<Rightarrow> place_announce sender_socket roomname st1)"
  by (simp add: place_def place_store_def place_announce_def update_conv' sendall_def
      split: sum.splits option.splits)

lemma wait_shared_leave_guard:
  "read_guard obs roomname s n = Inr (False, n1) \<Longrightarrow> wait_shared obs roomname s n = Some (Inr n1)"
  by (subst wait_shared.simps) simp

lemma wait_shared_leave_break:
  "read_guard obs roomname s n = Inr (True, n1) \<Longrightarrow> read_break obs roomname s n1 = Inr (True, n2)
   \<Longrightarrow> wait_shared obs roomname s n = Some (Inr n2)"
  by (subst wait_shared.simps) simp













lemma handle_message_shared_player:
  assumes "check_authorizations sender_socket (authenticated_clients st)"
    and "find_player_room (rooms st) (map fst (rooms st)) sender_socket None = Inr (Some roomname)"
    and "map_of (rooms st) roomname = Some r"
    and "split CHR '':'' message ! 0 \<notin> {''LOGIN'', ''REGISTER'', ''ROOMLIST'', ''CREATE'', ''JOIN''}"
  shows "handle_message_shared checkpw register sender_socket message st obs
           = (case wait_shared obs roomname sender_socket 0 of
                None \<Rightarrow> None
              | Some (Inl (e, m)) \<Rightarrow> Some (Raised e (obs m))
              | Some (Inr k) \<Rightarrow>
                  Some (if split CHR '':'' message ! 0 = ''PLACE''
                        then place (split CHR '':'' message) sender_socket roomname (obs k)
                        else if split CHR '':'' message ! 0 = ''FORFEIT''
                        then forfeit sender_socket roomname (obs k)
                        else Returned (obs k)))"
proof -
  from find_player_room_found [OF assms(2)] assms(3)
  have inroom: "in_room_as_a_player r sender_socket" by auto
  show ?thesis
    using assms inroom
    by (simp add: handle_message_shared_def Let_def split: option.splits sum.splits prod.splits)
qed


section \<open>Turn alternation\<close>









section \<open>Ended rooms\<close>

lemma map_of_filter_key: "map_of (filter (\<lambda>(k, v). k \<noteq> n) al) n = None"
  by (induction al) auto

lemma set_alist_update: "set (AList.update k v al) \<subseteq> insert (k, v) (set al)"
  by (induction al) auto

lemma list_all_alist_update:
  "list_all P al \<Longrightarrow> P (k, v) \<Longrightarrow> list_all P (AList.update k v al)"
  using set_alist_update [of k v al] by (auto simp: list_all_iff)

lemma list_all_filter_update:
  assumes "list_all P al"
  shows "list_all P (filter (\<lambda>(k', v'). k' \<noteq> k) (AList.update k v al))"
  using set_alist_update [of k v al] assms by (auto simp: list_all_iff)

lemma map_of_list_all: "map_of al k = Some v \<Longrightarrow> list_all P al \<Longrightarrow> P (k, v)"
  by (auto simp: list_all_iff dest: map_of_SomeD)

lemma rooms_sendall [simp]: "rooms (sendall s msg st) = rooms st"
  by (simp add: sendall_def)

lemma no_ended_room_sendall [simp]: "no_ended_room (sendall s msg st) = no_ended_room st"
  by (simp add: no_ended_room_def)

lemma update_keeps_board:
  "matrix (update r s mode) = matrix r \<and> has_end (update r s mode) = has_end r
   \<and> status_code (update r s mode) = status_code r"
  by (simp add: update_def)

lemma join_keeps_board:
  "matrix (snd (join r mode)) = matrix r \<and> has_end (snd (join r mode)) = has_end r
   \<and> status_code (snd (join r mode)) = status_code r"
  by (simp add: join_def)

lemma place_returned:
  assumes "place sm s n st = Returned st'"
  shows "(\<exists>r. has_end r \<and> rooms st' = filter (\<lambda>(k, v). k \<noteq> n) (AList.update n r (rooms st)))
       \<or> (\<exists>r. \<not> has_end r \<and> rooms st' = AList.update n r (rooms st))"
  using assms
  by (auto simp: place_def close_room_def split: sum.splits option.splits if_splits)

lemma place_no_ended_room:
  assumes "place sm s n st = Returned st'" and "no_ended_room st"
  shows "no_ended_room st' \<and> (\<forall>r. map_of (rooms st') n = Some r \<longrightarrow> \<not> has_end r)"
proof -
  have inv: "no_ended_room st'"
    using place_returned [OF assms(1)] assms(2)
    by (auto simp: no_ended_room_def intro: list_all_alist_update list_all_filter_update)
  then show ?thesis
    by (auto simp: no_ended_room_def dest: map_of_list_all)
qed

lemma forfeit_removes_room:
  assumes "forfeit s n st = Returned st'"
  shows "map_of (rooms st') n = None \<and> (no_ended_room st \<longrightarrow> no_ended_room st')"
  using assms
  by (auto simp: forfeit_def close_room_def map_of_filter_key no_ended_room_def list_all_iff
      split: sum.splits option.splits)

lemma join_room_no_ended_room:
  assumes "join_room sm s st = Returned st'" and "no_ended_room st"
  shows "no_ended_room st'"
proof -
  have upd: "list_all (\<lambda>(name, r). \<not> has_end r) (AList.update k (update r0 s mode) (rooms st))"
    if "map_of (rooms st) k = Some r0" for k r0 mode
  proof (rule list_all_alist_update)
    show "list_all (\<lambda>(name, r). \<not> has_end r) (rooms st)"
      using assms(2) by (simp add: no_ended_room_def)
    from map_of_list_all [OF that this] show "case (k, update r0 s mode) of (name, r) \<Rightarrow> \<not> has_end r"
      by (simp add: update_keeps_board)
  qed
  show ?thesis
    using assms upd
    by (auto simp: join_room_def Let_def no_ended_room_def sendall_def
        split: if_splits option.splits sum.splits prod.splits)
qed

lemma create_room_no_ended_room:
  assumes "create_room sm s st = Returned st'" and "no_ended_room st"
  shows "no_ended_room st'"
proof -
  have "list_all (\<lambda>(name, r). \<not> has_end r) (AList.update k (Room s) (rooms st))" for k
    using assms(2) by (intro list_all_alist_update) (simp_all add: no_ended_room_def Room_def)
  then show ?thesis
    using assms
    by (auto simp: create_room_def Let_def no_ended_room_def sendall_def split: if_splits)
qed

lemma join_room_no_such_room:
  assumes "map_of (rooms st) n = None" and "mode = ''PLAYER'' \<or> mode = ''VIEWER''"
  shows "join_room [n, mode] s st = Returned (sendall s ''JOIN:ACKSTATUS:1'' st)"
  using assms by (auto simp: join_room_def)

lemma place_returned_room_cases:
  assumes "place sm s n st = Returned st'"
  shows "(\<exists>r0 row column r. map_of (rooms st) n = Some r0 \<and> update_matrix r0 row column = Inr r
            \<and> has_end r \<and> map_of (rooms st') n = None)
       \<or> (\<exists>r0 row column r. map_of (rooms st) n = Some r0 \<and> update_matrix r0 row column = Inr r
            \<and> \<not> has_end r \<and> map_of (rooms st') n = Some r)"
  using assms
  by (auto simp: place_def close_room_def map_of_filter_key update_conv'
      split: sum.splits option.splits if_splits)

lemma place_returned_room:
  assumes "place sm s n st = Returned st'"
  shows "\<exists>r0 row column r. map_of (rooms st) n = Some r0 \<and> update_matrix r0 row column = Inr r
           \<and> map_of (rooms st') n = (if has_end r then None else Some r)"
  using place_returned_room_cases [OF assms] by (elim disjE exE conjE) (intro exI conjI; simp)+

lemma winning_place:
  "place [''PLACE'', ''2'', ''0''] sock_a ''r1'' (srv_ab [[1, 1, 0], [2, 2, 0], [0, 0, 0]] sock_a)
   = Returned
      \<lparr> rooms = [],
        clients = [(sock_v, None), (sock_a, None), (sock_b, None)],
        authenticated_clients = [(sock_a, ''alice''), (sock_b, ''bob''), (sock_v, ''vera'')],
        users = [],
        sent = [(sock_a, ''GAMEEND:111220000:0:alice''), (sock_b, ''GAMEEND:111220000:0:alice''),
                (sock_v, ''GAMEEND:111220000:0:alice'')] \<rparr>"
  by (simp add: place_def srv_ab_def room_ab_def update_matrix_def set_cell_def py_index_def
      getitem_def check_end_status_def check_rows_def check_columns_def check_diagonals_def
      is_board_full_def upt3 place_board_status_def get_another_player_two
      get_matrix_in_string_literal send_to_all_viewers_def close_room_def
      get_next_turn_player_def)

text \<open>
  What the handlers do to the registry when each of them runs from its first line to its
  last with no other handler in between.  Joining (\<open>Room.update\<close>, \<open>Room.join\<close>) never
  changes the board, \<open>has_end\<close> or \<open>status_code\<close> of a room.  A \<open>place\<close> that returns
  leaves under the room's name either no room (when the move set \<open>has_end\<close>) or the room
  after the move with \<open>has_end\<close> false, and a \<open>forfeit\<close> that returns leaves no room
  under the name; so \<open>place\<close>, \<open>forfeit\<close>, \<open>join_room\<close> and \<open>create_room\<close> keep the
  registry free of ended rooms, and a JOIN that names a room which is no longer stored is
  answered \<open>JOIN:ACKSTATUS:1\<close> and changes nothing else.
\<close>

lemma handlers_leave_no_ended_room:
  "matrix (update r s mode) = matrix r \<and> has_end (update r s mode) = has_end r
   \<and> status_code (update r s mode) = status_code r
   \<and> matrix (snd (join r mode)) = matrix r \<and> has_end (snd (join r mode)) = has_end r
   \<and> status_code (snd (join r mode)) = status_code r
   \<and> (place sm s n st = Returned st' \<longrightarrow>
        (\<exists>r0 row column r'. map_of (rooms st) n = Some r0 \<and> update_matrix r0 row column = Inr r'
            \<and> map_of (rooms st') n = (if has_end r' then None else Some r'))
        \<and> (no_ended_room st \<longrightarrow> no_ended_room st'))
   \<and> (forfeit s n st = Returned st' \<longrightarrow>
        map_of (rooms st') n = None \<and> (no_ended_room st \<longrightarrow> no_ended_room st'))
   \<and> (no_ended_room st \<and> join_room sm s st = Returned st' \<longrightarrow> no_ended_room st')
   \<and> (no_ended_room st \<and> create_room sm s st = Returned st' \<longrightarrow> no_ended_room st')
   \<and> (map_of (rooms st) n = None \<and> (mode = ''PLAYER'' \<or> mode = ''VIEWER'') \<longrightarrow>
        join_room [n, mode] s st = Returned (sendall s ''JOIN:ACKSTATUS:1'' st))"
  using update_keeps_board [of r s mode] join_keeps_board [of r mode]
    place_returned_room [of sm s n st st'] place_no_ended_room [of sm s n st st']
    forfeit_removes_room [of s n st st'] join_room_no_ended_room [of sm s st st']
    create_room_no_ended_room [of sm s st st'] join_room_no_such_room [of st n mode s]
  by blast

lemma winning_place':
  "place [''PLACE'', ''2'', ''0''] sock_a ''r1'' (srv_ab [[1, 1, 0], [2, 2, 0], [0, 0, 0]] sock_a)
   = Returned srv_after_win"
  unfolding srv_after_win_def by (rule winning_place)

lemma handlers_leave_no_ended_room_example:
  "no_ended_room (srv_ab [[1, 1, 0], [2, 2, 0], [0, 0, 0]] sock_a)
   \<and> place [''PLACE'', ''2'', ''0''] sock_a ''r1'' (srv_ab [[1, 1, 0], [2, 2, 0], [0, 0, 0]] sock_a)
       = Returned srv_after_win
   \<and> map_of (rooms srv_after_win) ''r1'' = None
   \<and> no_ended_room srv_after_win
   \<and> join_room [''r1'', ''PLAYER''] sock_b srv_after_win
       = Returned (sendall sock_b ''JOIN:ACKSTATUS:1'' srv_after_win)"
  using handlers_leave_no_ended_room
      [of "room_ab [[1, 1, 0], [2, 2, 0], [0, 0, 0]] sock_a" sock_a "''PLAYER''"
          "[''PLACE'', ''2'', ''0'']" "''r1''" "srv_ab [[1, 1, 0], [2, 2, 0], [0, 0, 0]] sock_a"
          srv_after_win]
    handlers_leave_no_ended_room
      [of "room_ab [[1, 1, 0], [2, 2, 0], [0, 0, 0]] sock_a" sock_b "''PLAYER''"
          "[''PLACE'', ''2'', ''0'']" "''r1''" srv_after_win srv_after_win]
    winning_place'
  by (simp add: no_ended_room_def srv_ab_def room_ab_def srv_after_win_def)

subsection \<open>A command held in the waiting loop while the match ends\<close>

text \<open>
  \<open>place\<close> stores the room after the move first and removes an ended room only at its
  very end, after it has sent the result (lemma \<open>place_in_two_steps\<close>).  Between the two
  the ended room is in the shared dictionary, with the other player as its mover, and the
  waiting loop of that player's handler can read it.
\<close>

lemma winning_store:
  "place_store [''PLACE'', ''2'', ''0''] sock_a ''r1''
       (srv_ab [[1, 1, 0], [2, 2, 0], [0, 0, 0]] sock_a) = Inr srv_window"
  by (simp add: place_store_def srv_ab_def room_ab_def update_matrix_def set_cell_def
      py_index_def getitem_def check_end_status_def check_rows_def check_columns_def
      check_diagonals_def is_board_full_def upt3 srv_window_def)

lemma window_wait:
  "wait_shared (\<lambda>n. if n < 2 then srv_ab [[1, 1, 0], [2, 2, 0], [0, 0, 0]] sock_a
                     else srv_window) ''r1'' sock_b 0 = Some (Inr 4)"
  by (rule wait_shared_leave_break [where ?n1.0 = 2])
    (simp_all add: read_guard_def read_break_def read_room_def read_current_player_def
      srv_ab_def room_ab_def get_current_player_def srv_window_def)

lemma window_place:
  "place [''PLACE'', ''2'', ''2''] sock_b ''r1'' srv_window = Returned srv_after_race"
  by (simp add: place_def srv_ab_def room_ab_def update_matrix_def set_cell_def py_index_def
      getitem_def check_end_status_def check_rows_def check_columns_def check_diagonals_def
      is_board_full_def upt3 place_board_status_def get_another_player_two
      get_matrix_in_string_literal send_to_all_viewers_def close_room_def
      get_next_turn_player_def srv_window_def srv_after_race_def)

lemma window_handled:
  "handle_message_shared (\<lambda>password hashed. False) (\<lambda>splited_message s st. Returned st)
      sock_b ''PLACE:2:2'' (srv_ab [[1, 1, 0], [2, 2, 0], [0, 0, 0]] sock_a)
      (\<lambda>n. if n < 2 then srv_ab [[1, 1, 0], [2, 2, 0], [0, 0, 0]] sock_a else srv_window)
     = Some (Returned srv_after_race)"
proof -
  let ?obs = "\<lambda>n::nat. if n < 2 then srv_ab [[1, 1, 0], [2, 2, 0], [0, 0, 0]] sock_a
                        else srv_window"
  have hm: "handle_message_shared (\<lambda>password hashed. False)
      (\<lambda>splited_message s st. Returned st)
      sock_b ''PLACE:2:2'' (srv_ab [[1, 1, 0], [2, 2, 0], [0, 0, 0]] sock_a) ?obs
     = (case wait_shared ?obs ''r1'' sock_b 0 of
          None \<Rightarrow> None
        | Some (Inl (e, m)) \<Rightarrow> Some (Raised e (?obs m))
        | Some (Inr k) \<Rightarrow>
            Some (if split CHR '':'' ''PLACE:2:2'' ! 0 = ''PLACE''
                  then place (split CHR '':'' ''PLACE:2:2'') sock_b ''r1'' (?obs k)
                  else if split CHR '':'' ''PLACE:2:2'' ! 0 = ''FORFEIT''
                  then forfeit sock_b ''r1'' (?obs k)
                  else Returned (?obs k)))"
    by (rule handle_message_shared_player [OF _ _ srv_ab_room]) (simp_all add: srv_ab_player)
  show ?thesis unfolding hm window_wait by (simp add: window_place)
qed

lemma after_race_announce:
  "place_announce sock_a ''r1'' srv_after_race = Raised KeyError srv_after_race"
  by (simp add: place_announce_def srv_after_race_def)

text \<open>
  C4.  Ended is not terminal.  Room \<open>r1\<close> holds the board 110/220/000 with \<open>sock_a\<close>
  to move, and a PLACE:2:2 of \<open>sock_b\<close> is held in the waiting loop.  \<open>sock_a\<close> places at
  column 2, row 0 and completes the top row: \<open>place\<close> stores the room with \<open>has_end\<close>
  true and \<open>sock_b\<close> as mover.  The loop of \<open>sock_b\<close> reads that room and leaves, and
  \<open>place\<close> runs on the ended room: \<open>Room.update_matrix\<close>, which never looks at
  \<open>has_end\<close>, writes the mark of \<open>sock_b\<close> into the last cell, a second end of the match
  is sent to everyone, with \<open>bob\<close> as the winner on a board that shows the row of
  \<open>alice\<close>, and the room is removed.  The rest of the \<open>place\<close> of \<open>sock_a\<close> then finds no
  room and raises \<open>KeyError\<close>.
\<close>

theorem ended_room_written_in_window:
  "place_store [''PLACE'', ''2'', ''0''] sock_a ''r1''
       (srv_ab [[1, 1, 0], [2, 2, 0], [0, 0, 0]] sock_a) = Inr srv_window
   \<and> map_of (rooms srv_window) ''r1''
       = Some ((room_ab [[1, 1, 1], [2, 2, 0], [0, 0, 0]] sock_b)
                 \<lparr>has_end := True, status_code := ''0''\<rparr>)
   \<and> update_matrix ((room_ab [[1, 1, 1], [2, 2, 0], [0, 0, 0]] sock_b)
                       \<lparr>has_end := True, status_code := ''0''\<rparr>) 2 2
       = Inr ((room_ab [[1, 1, 1], [2, 2, 0], [0, 0, 2]] sock_a)
                \<lparr>has_end := True, status_code := ''0''\<rparr>)
   \<and> handle_message_shared (\<lambda>password hashed. False) (\<lambda>splited_message s st. Returned st)
        sock_b ''PLACE:2:2'' (srv_ab [[1, 1, 0], [2, 2, 0], [0, 0, 0]] sock_a)
        (\<lambda>n. if n < 2 then srv_ab [[1, 1, 0], [2, 2, 0], [0, 0, 0]] sock_a else srv_window)
       = Some (Returned srv_after_race)
   \<and> sent srv_after_race
       = [(sock_b, ''GAMEEND:111220002:0:bob''), (sock_a, ''GAMEEND:111220002:0:bob''),
          (sock_v, ''GAMEEND:111220002:0:bob'')]
   \<and> place_announce sock_a ''r1'' srv_after_race = Raised KeyError srv_after_race"
proof -
  have "map_of (rooms srv_window) ''r1''
       = Some ((room_ab [[1, 1, 1], [2, 2, 0], [0, 0, 0]] sock_b)
                 \<lparr>has_end := True, status_code := ''0''\<rparr>)"
    by (simp add: srv_window_def)
  moreover have "update_matrix ((room_ab [[1, 1, 1], [2, 2, 0], [0, 0, 0]] sock_b)
                       \<lparr>has_end := True, status_code := ''0''\<rparr>) 2 2
       = Inr ((room_ab [[1, 1, 1], [2, 2, 0], [0, 0, 2]] sock_a)
                \<lparr>has_end := True, status_code := ''0''\<rparr>)"
    by (simp add: room_ab_def update_matrix_def set_cell_def py_index_def check_end_status_def
        check_rows_def check_columns_def check_diagonals_def is_board_full_def upt3)
  moreover have "sent srv_after_race
       = [(sock_b, ''GAMEEND:111220002:0:bob''), (sock_a, ''GAMEEND:111220002:0:bob''),
          (sock_v, ''GAMEEND:111220002:0:bob'')]"
    by (simp add: srv_after_race_def)
  ultimately show ?thesis
    using winning_store window_handled after_race_announce by (intro conjI)
qed

section \<open>Forfeit\<close>

lemma get_key_by_value_Some:
  "(k0, user) \<in> set d \<Longrightarrow> \<exists>k. get_key_by_value d user = Some k \<and> (k, user) \<in> set d"
  by (induction d) auto

lemma alist_same_key:
  "distinct (map fst d) \<Longrightarrow> (k, v) \<in> set d \<Longrightarrow> (k, v') \<in> set d \<Longrightarrow> v = v'"
  by (metis map_of_is_SomeI option.inject)

lemma alist_same_value:
  assumes "distinct (map snd d)" "(k, v) \<in> set d" "(k', v) \<in> set d"
  shows "k = k'"
proof -
  from assms(1) have "inj_on snd (set d)" by (simp add: distinct_map)
  from inj_onD [OF this _ assms(2,3)] show ?thesis by simp
qed

lemma forfeit_loop_winner:
  assumes "distinct (map fst auth)" and "distinct (map snd auth)"
    and "(opp, w) \<in> set auth" and "get_next_turn_player r = Inr opp"
    and "set us \<subseteq> snd ` set auth" and "distinct us"
  shows "forfeit_loop auth r us bs = Inr (if w \<in> set us then bs @ w else bs)"
  using assms(5,6)
proof (induction us arbitrary: bs)
  case Nil
  then show ?case by simp
next
  case (Cons user us)
  from Cons.prems(1) obtain k0 where "(k0, user) \<in> set auth" by auto
  from get_key_by_value_Some [OF this]
  obtain k where k: "get_key_by_value auth user = Some k" "(k, user) \<in> set auth" by blast
  have same: "k = opp \<longleftrightarrow> user = w"
    using k(2) assms(1-3) by (auto dest: alist_same_key alist_same_value)
  have IH: "forfeit_loop auth r us bs' = Inr (if w \<in> set us then bs' @ w else bs')" for bs'
    using Cons.IH Cons.prems by simp
  show ?case
  proof (cases "user = w")
    case True
    with Cons.prems(2) have "w \<notin> set us" by simp
    with True same k(1) show ?thesis by (simp add: assms(4) IH)
  next
    case False
    with same k(1) show ?thesis by (simp add: assms(4) IH)
  qed
qed

lemma forfeit_loop_all:
  assumes "distinct (map fst auth)" and "distinct (map snd auth)"
    and "(opp, w) \<in> set auth" and "get_next_turn_player r = Inr opp"
  shows "forfeit_loop auth r (map snd auth) bs = Inr (bs @ w)"
proof -
  have "w \<in> set (map snd auth)" using assms(3) by force
  with forfeit_loop_winner [OF assms, of "map snd auth" bs] assms(2) show ?thesis by simp
qed

lemma forfeit_by_mover:
  assumes "players r = [p0, p1]" and "p0 \<noteq> p1"
    and "sender_socket = p0 \<and> opponent = p1 \<or> sender_socket = p1 \<and> opponent = p0"
    and "current_player r = sender_socket"
    and "map_of (rooms st) roomname = Some r"
    and "distinct (map fst (authenticated_clients st))"
    and "distinct (map snd (authenticated_clients st))"
    and "(opponent, winner) \<in> set (authenticated_clients st)"
  shows "forfeit sender_socket roomname st
           = Returned
               (close_room sender_socket opponent roomname
                  (st\<lparr>sent := sent st
                        @ [(sender_socket, ''GAMEEND:'' @ get_matrix_in_string r @ '':2:'' @ winner),
                           (opponent, ''GAMEEND:'' @ get_matrix_in_string r @ '':2:'' @ winner)]
                        @ map (\<lambda>viewer. (viewer, ''GAMEEND:'' @ get_matrix_in_string r @ '':2:'' @ winner))
                            (viewers r)\<rparr>))"
proof -
  have nxt: "get_next_turn_player r = Inr opponent"
    using assms(2-4) by (auto simp: get_next_turn_player_two [OF assms(1)])
  have other: "get_another_player r sender_socket = Inr opponent"
    using assms(2,3) by (auto simp: get_another_player_two [OF assms(1)])
  note loop = forfeit_loop_all [OF assms(6,7,8) nxt]
  show ?thesis
    by (simp add: forfeit_def assms(5) loop other send_to_all_viewers_def)
qed

text \<open>
  C5 (as amended).  In a room in progress with two different, logged-in players, a
  FORFEIT from a player is carried out when that player is the current mover, and is held
  back in the waiting loop otherwise.  When it is carried out, the name appended as
  winner is the one the opponent is logged in with, the text
  \<open>GAMEEND:<board>:2:<winner>\<close> is sent to the sender, to the opponent and to every
  viewer, in this order, and nothing else is sent; both players get the entry \<open>None\<close>
  in \<open>clients\<close> and the room is removed from the registry (\<open>close_room\<close>).  The board
  part has 9 characters.
\<close>

theorem forfeit_declares_opponent_winner:
  assumes "players r = [p0, p1]" and "p0 \<noteq> p1" and "has_began r"
    and "current_player r = p0 \<or> current_player r = p1"
    and "sender_socket = p0 \<and> opponent = p1 \<or> sender_socket = p1 \<and> opponent = p0"
    and "check_authorizations sender_socket (authenticated_clients st)"
    and "find_player_room (rooms st) (map fst (rooms st)) sender_socket None = Inr (Some roomname)"
    and "map_of (rooms st) roomname = Some r"
    and "split CHR '':'' message ! 0 = ''FORFEIT''"
    and "distinct (map fst (authenticated_clients st))"
    and "distinct (map snd (authenticated_clients st))"
    and "(opponent, winner) \<in> set (authenticated_clients st)"
  shows "handle_message checkpw register sender_socket message st
           = (if sender_socket = current_player r then
                Some (Returned
                  (close_room sender_socket opponent roomname
                    (st\<lparr>sent := sent st
                        @ [(sender_socket, ''GAMEEND:'' @ get_matrix_in_string r @ '':2:'' @ winner),
                           (opponent, ''GAMEEND:'' @ get_matrix_in_string r @ '':2:'' @ winner)]
                        @ map (\<lambda>viewer. (viewer, ''GAMEEND:'' @ get_matrix_in_string r @ '':2:'' @ winner))
                            (viewers r)\<rparr>)))
              else None)
       \<and> map_of (rooms (close_room sender_socket opponent roomname st')) roomname = None
       \<and> (board_shape (matrix r) \<and> board_marks (matrix r) \<longrightarrow> length (get_matrix_in_string r) = 9)"
proof -
  have cmd: "split CHR '':'' message ! 0 \<notin> {''LOGIN'', ''REGISTER'', ''ROOMLIST'', ''CREATE'', ''JOIN''}"
    by (simp add: assms(9))
  note hm = handle_message_player [OF assms(1,4,6,7,8) cmd, of checkpw register]
  have 1: "handle_message checkpw register sender_socket message st
           = (if sender_socket = current_player r then
                Some (Returned
                  (close_room sender_socket opponent roomname
                    (st\<lparr>sent := sent st
                        @ [(sender_socket, ''GAMEEND:'' @ get_matrix_in_string r @ '':2:'' @ winner),
                           (opponent, ''GAMEEND:'' @ get_matrix_in_string r @ '':2:'' @ winner)]
                        @ map (\<lambda>viewer. (viewer, ''GAMEEND:'' @ get_matrix_in_string r @ '':2:'' @ winner))
                            (viewers r)\<rparr>)))
              else None)"
  proof (cases "sender_socket = current_player r")
    case True
    then have "current_player r = sender_socket" by simp
    note f = forfeit_by_mover [OF assms(1,2,5) this assms(8,10,11,12)]
    show ?thesis unfolding hm f using True assms(3,9) by simp
  next
    case False
    then show ?thesis unfolding hm by simp
  qed
  have 2: "map_of (rooms (close_room sender_socket opponent roomname st')) roomname = None"
    by (simp add: close_room_def map_of_filter_key)
  from 1 2 get_matrix_in_string_marks(2) [of r] show ?thesis by blast
qed

theorem forfeit_declares_opponent_winner_witness:
  "players (room_ab [[0, 0, 0], [0, 0, 0], [0, 0, 0]] sock_a) = [sock_a, sock_b]
   \<and> sock_a \<noteq> sock_b
   \<and> has_began (room_ab [[0, 0, 0], [0, 0, 0], [0, 0, 0]] sock_a)
   \<and> check_authorizations sock_a
        (authenticated_clients (srv_ab [[0, 0, 0], [0, 0, 0], [0, 0, 0]] sock_a))
   \<and> find_player_room (rooms (srv_ab [[0, 0, 0], [0, 0, 0], [0, 0, 0]] sock_a))
        (map fst (rooms (srv_ab [[0, 0, 0], [0, 0, 0], [0, 0, 0]] sock_a))) sock_a None
       = Inr (Some ''r1'')
   \<and> distinct (map fst (authenticated_clients (srv_ab [[0, 0, 0], [0, 0, 0], [0, 0, 0]] sock_a)))
   \<and> distinct (map snd (authenticated_clients (srv_ab [[0, 0, 0], [0, 0, 0], [0, 0, 0]] sock_a)))
   \<and> (sock_b, ''bob'') \<in> set (authenticated_clients (srv_ab [[0, 0, 0], [0, 0, 0], [0, 0, 0]] sock_a))
   \<and> handle_message (\<lambda>password hashed. False) (\<lambda>splited_message s st. Returned st)
        sock_a ''FORFEIT'' (srv_ab [[0, 0, 0], [0, 0, 0], [0, 0, 0]] sock_a)
       = Some (Returned srv_after_forfeit)"
  using forfeit_declares_opponent_winner
     [of "room_ab [[0, 0, 0], [0, 0, 0], [0, 0, 0]] sock_a" sock_a sock_b sock_a sock_b
         "srv_ab [[0, 0, 0], [0, 0, 0], [0, 0, 0]] sock_a" "''r1''" "''FORFEIT''" "''bob''"
         "\<lambda>password hashed. False" "\<lambda>splited_message s st. Returned st"]
  by (simp add: room_ab_def srv_ab_def srv_after_forfeit_def check_authorizations_def
      in_room_as_a_player_def close_room_def get_matrix_in_string_literal)

text \<open>
  The claim as written fails in two places.  A FORFEIT from the player who is not the
  mover is not carried out: the handler stays in the waiting loop and nothing is sent.
  And a forfeit that is carried out does not give the room an ended status: \<open>has_end\<close>
  and \<open>status_code\<close> are not written by \<open>forfeit\<close>, the room is deleted from the registry
  instead.
\<close>

theorem forfeit_counterexample:
  "handle_message (\<lambda>password hashed. False) (\<lambda>splited_message s st. Returned st)
        sock_b ''FORFEIT'' (srv_ab [[0, 0, 0], [0, 0, 0], [0, 0, 0]] sock_a) = None
   \<and> forfeit sock_a ''r1'' (srv_ab [[0, 0, 0], [0, 0, 0], [0, 0, 0]] sock_a)
       = Returned srv_after_forfeit
   \<and> rooms srv_after_forfeit = []
   \<and> \<not> has_end (room_ab [[0, 0, 0], [0, 0, 0], [0, 0, 0]] sock_a)
   \<and> status_code (room_ab [[0, 0, 0], [0, 0, 0], [0, 0, 0]] sock_a) = ''3''"
proof -
  have "handle_message (\<lambda>password hashed. False) (\<lambda>splited_message s st. Returned st)
        sock_b ''FORFEIT'' (srv_ab [[0, 0, 0], [0, 0, 0], [0, 0, 0]] sock_a) = None"
    using handle_message_player
      [of "room_ab [[0, 0, 0], [0, 0, 0], [0, 0, 0]] sock_a" sock_a sock_b sock_b
          "srv_ab [[0, 0, 0], [0, 0, 0], [0, 0, 0]] sock_a" "''r1''" "''FORFEIT''"
          "\<lambda>password hashed. False" "\<lambda>splited_message s st. Returned st"]
    by (simp add: room_ab_def srv_ab_def check_authorizations_def in_room_as_a_player_def)
  moreover
  have "forfeit sock_a ''r1'' (srv_ab [[0, 0, 0], [0, 0, 0], [0, 0, 0]] sock_a)
       = Returned srv_after_forfeit"
    by (simp add: forfeit_def srv_ab_def room_ab_def srv_after_forfeit_def close_room_def
        get_matrix_in_string_literal get_next_turn_player_def get_another_player_two
        send_to_all_viewers_def)
  ultimately show ?thesis
    by (simp add: srv_after_forfeit_def room_ab_def)
qed

section \<open>The board string and the first move\<close>

lemma set_cell_marks:
  assumes "board_marks m" and "v = 1 \<or> v = 2" and "set_cell m row column v = Inr m'"
  shows "board_marks m'"
proof -
  from assms(3) obtain i j where m': "m' = m[i := (m ! i)[j := v]]" and i: "i < length m"
    by (auto simp: set_cell_def split: sum.splits dest: py_index_Inr)
  have "set (concat m') \<subseteq> insert v (set (concat m))"
  proof
    fix c assume "c \<in> set (concat m')"
    then obtain row' where row': "row' \<in> set m'" "c \<in> set row'" by auto
    from row'(1) have "row' = (m ! i)[j := v] \<or> row' \<in> set m"
      unfolding m' using set_update_subset_insert [of m i "(m ! i)[j := v]"] by auto
    then show "c \<in> insert v (set (concat m))"
    proof
      assume "row' = (m ! i)[j := v]"
      with row'(2) have "c = v \<or> c \<in> set (m ! i)"
        using set_update_subset_insert [of "m ! i" j v] by auto
      with i show ?thesis by auto
    next
      assume "row' \<in> set m"
      with row'(2) show ?thesis by auto
    qed
  qed
  with assms(1,2) show ?thesis
    by (auto simp: board_marks_def list_all_iff)
qed

lemma update_matrix_board:
  assumes "update_matrix r row column = Inr r'"
    and "board_shape (matrix r)" and "board_marks (matrix r)"
  shows "board_shape (matrix r') \<and> board_marks (matrix r')"
proof -
  from assms(1) have "set_cell (matrix r) row column 1 = Inr (matrix r')
                    \<or> set_cell (matrix r) row column 2 = Inr (matrix r')"
    by (auto simp: update_matrix_def split: sum.splits if_splits)
  with assms(2,3) show ?thesis
    by (auto intro: set_cell_shape set_cell_marks)
qed

lemma room_step_board:
  assumes "board_shape (matrix r) \<and> board_marks (matrix r)"
  shows "board_shape (matrix (room_step r op)) \<and> board_marks (matrix (room_step r op))"
proof (cases op)
  case (Join s mode)
  then show ?thesis using assms by (simp add: update_def)
next
  case (JoinReply mode)
  then show ?thesis using assms by (simp add: join_def)
next
  case (Place row column)
  then show ?thesis using assms
    by (auto split: sum.splits dest: update_matrix_board)
qed

lemma lifetime_board:
  "board_shape (matrix r) \<and> board_marks (matrix r) \<Longrightarrow>
   board_shape (matrix (foldl room_step r ops)) \<and> board_marks (matrix (foldl room_step r ops))"
proof (induction ops arbitrary: r)
  case Nil
  then show ?case by simp
next
  case (Cons op ops)
  from room_step_board [OF Cons.prems] show ?case
    by (simp add: Cons.IH)
qed

lemma Room_board: "board_shape (matrix (Room s)) \<and> board_marks (matrix (Room s))"
  by (simp add: Room_def board_shape_def board_marks_def numeral_3_eq_3)

lemma row_major:
  assumes "board_shape m" and "i < 3" and "j < 3"
  shows "concat m ! (3 * i + j) = m ! i ! j"
proof -
  from assms(1) obtain a b c d e f g h k where m: "m = [[a, b, c], [d, e, f], [g, h, k]]"
    by (rule board_shape_cases)
  from assms(2,3) have "i = 0 \<or> i = 1 \<or> i = 2" "j = 0 \<or> j = 1 \<or> j = 2" by auto
  then show ?thesis by (auto simp: m)
qed

lemma first_place:
  assumes "a \<noteq> b" and "map_of (rooms st) roomname = Some (begun_room a b vs)"
  shows "place [''PLACE'', ''0'', ''0''] a roomname st
         = Returned
            (st\<lparr> rooms := AList.update roomname
                     ((begun_room a b vs)\<lparr>matrix := [[1, 0, 0], [0, 0, 0], [0, 0, 0]],
                                          current_player := b\<rparr>) (rooms st),
                  sent := sent st @ [(a, ''BOARDSTATUS:100000000''), (b, ''BOARDSTATUS:100000000'')]
                            @ map (\<lambda>viewer. (viewer, ''BOARDSTATUS:100000000'')) vs \<rparr>)"
proof -
  have r: "begun_room a b vs =
      \<lparr> players = [a, b], viewers = vs, max_players = 2, matrix = [[0, 0, 0], [0, 0, 0], [0, 0, 0]],
        current_player = a, has_end = False, status_code = ''3'', has_began = True \<rparr>"
    by (simp add: begun_room_def Room_def update_def numeral_3_eq_3)
  have upd: "update_matrix (begun_room a b vs) 0 0
        = Inr ((begun_room a b vs)\<lparr>matrix := [[1, 0, 0], [0, 0, 0], [0, 0, 0]], current_player := b\<rparr>)"
    by (simp add: r update_matrix_def set_cell_def py_index_def check_end_status_def check_rows_def
        check_columns_def check_diagonals_def is_board_full_def upt3)
  have other: "get_another_player
        ((begun_room a b vs)\<lparr>matrix := [[1, 0, 0], [0, 0, 0], [0, 0, 0]], current_player := b\<rparr>) a = Inr b"
    by (simp add: r get_another_player_two)
  have str: "get_matrix_in_string
        ((begun_room a b vs)\<lparr>matrix := [[1, 0, 0], [0, 0, 0], [0, 0, 0]], current_player := b\<rparr>)
        = ''100000000''"
    by (simp add: get_matrix_in_string_def)
  have ne: "\<not> has_end ((begun_room a b vs)\<lparr>matrix := [[1, 0, 0], [0, 0, 0], [0, 0, 0]], current_player := b\<rparr>)"
    by (simp add: r)
  have vw: "viewers ((begun_room a b vs)\<lparr>matrix := [[1, 0, 0], [0, 0, 0], [0, 0, 0]], current_player := b\<rparr>) = vs"
    by (simp add: r)
  show ?thesis
    by (simp add: place_def getitem_def py_index_def assms(2) upd place_board_status_def ne str
        other send_to_all_viewers_def vw)
qed

lemma Room_literal:
  "Room s = \<lparr> players = [s], viewers = [], max_players = 2,
               matrix = [[0, 0, 0], [0, 0, 0], [0, 0, 0]], current_player = s,
               has_end = False, status_code = ''3'', has_began = False \<rparr>"
  by (simp add: Room_def numeral_3_eq_3)

text \<open>The scenario up to the start of the match, message by message.\<close>

lemma scenario_create:
  "handle_message checkpw register sock_a ''CREATE:r1'' srv_start = Some (Returned srv_created)"
  by (simp add: handle_message_def srv_start_def srv_created_def check_authorizations_def
      create_room_def check_legal_room_name_def room_name_chars_def sendall_def Let_def)

lemma scenario_view:
  "handle_message checkpw register sock_v ''JOIN:r1:VIEWER'' srv_created = Some (Returned srv_viewed)"
  by (simp add: handle_message_def srv_start_def srv_created_def srv_viewed_def
      check_authorizations_def join_room_def join_def update_def Room_def sendall_def
      able_to_add_player_def Let_def)

lemma scenario_join:
  "handle_message checkpw register sock_b ''JOIN:r1:PLAYER'' srv_viewed = Some (Returned srv_begun)"
  by (simp add: handle_message_def srv_start_def srv_created_def srv_viewed_def srv_begun_def
      begun_room_def check_authorizations_def join_room_def join_def update_def Room_def
      sendall_def able_to_add_player_def get_another_player_two send_to_all_viewers_def Let_def)

text \<open>
  C7.  At every point of a room's lifetime the board string has exactly 9 characters,
  the cells in row-major order, each cell as \<open>mark_char\<close> of its value (0, 1 or 2).  In a
  room that has just begun, with creator \<open>a\<close>, second player \<open>b\<close> and viewers \<open>vs\<close>, the
  creator's \<open>PLACE:0:0\<close> sends \<open>BOARDSTATUS:100000000\<close> to \<open>a\<close>, to \<open>b\<close> and to every
  viewer, and the room stored afterwards has the mark 1 in the first cell and \<open>b\<close> as the
  current mover.
\<close>

theorem board_string_and_first_move:
  "length (get_matrix_in_string (foldl room_step (Room creator) ops)) = 9
   \<and> get_matrix_in_string (foldl room_step (Room creator) ops)
       = map mark_char (concat (matrix (foldl room_step (Room creator) ops)))
   \<and> (\<forall>i < 3. \<forall>j < 3.
        get_matrix_in_string (foldl room_step (Room creator) ops) ! (3 * i + j)
          = mark_char (matrix (foldl room_step (Room creator) ops) ! i ! j))
   \<and> (a \<noteq> b
      \<and> check_authorizations a (authenticated_clients st)
      \<and> find_player_room (rooms st) (map fst (rooms st)) a None = Inr (Some roomname)
      \<and> map_of (rooms st) roomname = Some (begun_room a b vs)
      \<longrightarrow> handle_message checkpw register a ''PLACE:0:0'' st
          = Some (Returned
              (st\<lparr> rooms := AList.update roomname
                     ((begun_room a b vs)\<lparr>matrix := [[1, 0, 0], [0, 0, 0], [0, 0, 0]],
                                          current_player := b\<rparr>) (rooms st),
                  sent := sent st @ [(a, ''BOARDSTATUS:100000000''), (b, ''BOARDSTATUS:100000000'')]
                            @ map (\<lambda>viewer. (viewer, ''BOARDSTATUS:100000000'')) vs \<rparr>)))"
proof -
  let ?r = "foldl room_step (Room creator) ops"
  from lifetime_board [OF Room_board, of creator ops]
  have shape: "board_shape (matrix ?r)" and marks: "board_marks (matrix ?r)" by simp_all
  note str = get_matrix_in_string_marks [OF shape marks]
  have len: "length (concat (matrix ?r)) = 9" using str by simp
  have nth: "get_matrix_in_string ?r ! (3 * i + j) = mark_char (matrix ?r ! i ! j)"
    if "i < 3" "j < 3" for i j
  proof -
    from that have "3 * i + j < 9" by simp
    with len show ?thesis
      by (simp add: str(1) row_major [OF shape that])
  qed
  have scen: "handle_message checkpw register a ''PLACE:0:0'' st
          = Some (Returned
              (st\<lparr> rooms := AList.update roomname
                     ((begun_room a b vs)\<lparr>matrix := [[1, 0, 0], [0, 0, 0], [0, 0, 0]],
                                          current_player := b\<rparr>) (rooms st),
                  sent := sent st @ [(a, ''BOARDSTATUS:100000000''), (b, ''BOARDSTATUS:100000000'')]
                            @ map (\<lambda>viewer. (viewer, ''BOARDSTATUS:100000000'')) vs \<rparr>))"
    if "a \<noteq> b" "check_authorizations a (authenticated_clients st)"
      "find_player_room (rooms st) (map fst (rooms st)) a None = Inr (Some roomname)"
      "map_of (rooms st) roomname = Some (begun_room a b vs)"
  proof -
    have p: "players (begun_room a b vs) = [a, b]"
      and c: "current_player (begun_room a b vs) = a \<or> current_player (begun_room a b vs) = b"
      and cur: "current_player (begun_room a b vs) = a" and beg: "has_began (begun_room a b vs)"
      by (simp_all add: begun_room_def Room_def update_def)
    have sp: "split CHR '':'' ''PLACE:0:0'' = [''PLACE'', ''0'', ''0'']" by simp
    have cmd: "split CHR '':'' ''PLACE:0:0'' ! 0
                 \<notin> {''LOGIN'', ''REGISTER'', ''ROOMLIST'', ''CREATE'', ''JOIN''}"
      by (simp add: sp)
    show ?thesis
      unfolding handle_message_player [OF p c that(2,3,4) cmd] sp first_place [OF that(1,4)]
      by (simp add: cur beg)
  qed
  from str nth scen show ?thesis by blast
qed

theorem board_string_and_first_move_witness:
  "sock_a \<noteq> sock_b
   \<and> check_authorizations sock_a (authenticated_clients srv_begun)
   \<and> find_player_room (rooms srv_begun) (map fst (rooms srv_begun)) sock_a None = Inr (Some ''r1'')
   \<and> map_of (rooms srv_begun) ''r1'' = Some (begun_room sock_a sock_b [sock_v])
   \<and> handle_message (\<lambda>password hashed. False) (\<lambda>splited_message s st. Returned st)
        sock_a ''PLACE:0:0'' srv_begun
       = Some (Returned
           (srv_begun\<lparr> rooms := [(''r1'', (begun_room sock_a sock_b [sock_v])
                                      \<lparr>matrix := [[1, 0, 0], [0, 0, 0], [0, 0, 0]],
                                       current_player := sock_b\<rparr>)],
                       sent := sent srv_begun
                         @ [(sock_a, ''BOARDSTATUS:100000000''), (sock_b, ''BOARDSTATUS:100000000''),
                            (sock_v, ''BOARDSTATUS:100000000'')] \<rparr>))
   \<and> get_matrix_in_string (foldl room_step (Room sock_a) [Join sock_b ''PLAYER'', Place 0 0])
       = ''100000000''"
  using board_string_and_first_move
     [of sock_a "[Join sock_b ''PLAYER'', Place 0 0]" sock_a sock_b srv_begun "''r1''" "[sock_v]"
         "\<lambda>password hashed. False" "\<lambda>splited_message s st. Returned st"]
  by (simp add: srv_begun_def srv_viewed_def srv_created_def srv_start_def begun_room_def
      check_authorizations_def in_room_as_a_player_def Room_literal update_def get_matrix_in_string_literal
      update_matrix_def set_cell_def py_index_def check_end_status_def check_rows_def
      check_columns_def check_diagonals_def is_board_full_def upt3 mark_char_def)

section \<open>Creating a room\<close>

lemma strip_last_not_space:
  assumes "strip s \<noteq> []"
  shows "\<not> is_space (last (strip s))"
proof -
  let ?t = "dropWhile is_space (rev (dropWhile is_space s))"
  from assms have ne: "?t \<noteq> []" by (simp add: strip_def)
  then have "\<not> is_space (hd ?t)" by (rule hd_dropWhile)
  moreover have "last (strip s) = hd ?t"
    using ne by (simp add: strip_def last_rev)
  ultimately show ?thesis by simp
qed

lemma split_nonempty [simp]: "split sep s \<noteq> []"
  by (induction s) (auto split: list.splits)

lemma split_single_empty: "split sep s = [[]] \<Longrightarrow> s = []"
proof (cases s)
  case Nil
  then show ?thesis by simp
next
  case (Cons c cs)
  assume "split sep s = [[]]"
  with Cons split_nonempty [of sep cs] show ?thesis
    by (auto split: if_splits list.splits)
qed

lemma split_last:
  "last (split sep s) \<noteq> [] \<Longrightarrow> s \<noteq> [] \<and> last (last (split sep s)) = last s"
proof (induction s)
  case Nil
  then show ?case by simp
next
  case (Cons c s)
  obtain f fs where sp: "split sep s = f # fs"
    using split_nonempty [of sep s] by (cases "split sep s") auto
  show ?case
  proof (cases "c = sep")
    case True
    with Cons.prems sp have "last (split sep s) \<noteq> []" by simp
    from Cons.IH [OF this] True sp show ?thesis by simp
  next
    case False
    show ?thesis
    proof (cases fs)
      case Nil
      show ?thesis
      proof (cases "f = []")
        case True
        with sp Nil have "s = []" by (intro split_single_empty [of sep]) simp
        with False show ?thesis by simp
      next
        case nonempty: False
        with sp Nil have "last (split sep s) \<noteq> []" by simp
        from Cons.IH [OF this] sp Nil False nonempty show ?thesis by simp
      qed
    next
      case (Cons g gs)
      with sp False Cons.prems have "last (split sep s) \<noteq> []" by simp
      from Cons.IH [OF this] sp Cons False show ?thesis by simp
    qed
  qed
qed

lemma newline_is_space: "is_space (CHR 0x0A)"
  by (simp add: is_space_def)

lemma last_field_of_frame:
  assumes "split CHR '':'' (strip data) = cmd # args" and "args \<noteq> []" and "last args \<noteq> []"
  shows "last (last args) \<noteq> CHR 0x0A"
proof -
  from assms(1,2) have l: "last (split CHR '':'' (strip data)) = last args" by simp
  with assms(3) split_last [of "CHR '':''" "strip data"]
  have "strip data \<noteq> []" and "last (last args) = last (strip data)" by simp_all
  with strip_last_not_space [of data] newline_is_space show ?thesis by auto
qed

lemma check_legal_room_name_pattern:
  assumes "name = [] \<or> last name \<noteq> CHR 0x0A"
  shows "check_legal_room_name name = matches_room_name_pattern name"
  using assms
  by (auto simp: check_legal_room_name_def matches_room_name_pattern_def list_all_iff)

lemma alist_update_new:
  "k \<notin> fst ` set al \<Longrightarrow> AList.update k v al = al @ [(k, v)]"
  by (induction al) auto

lemma length_alist_update: "length (AList.update k v al) \<le> Suc (length al)"
  by (induction al) auto

lemma length_alist_update_present:
  "map_of al k = Some v0 \<Longrightarrow> length (AList.update k v al) = length al"
  by (induction al) (auto split: if_splits)

lemma create_room_chain:
  assumes "length args = 1 \<longrightarrow> args ! 0 = [] \<or> last (args ! 0) \<noteq> CHR 0x0A"
  shows "create_room args sender_socket st =
       Returned
         (if length args \<noteq> 1 then sendall sender_socket ''CREATE:ACKSTATUS:4'' st
          else if \<not> matches_room_name_pattern (args ! 0)
          then sendall sender_socket ''CREATE:ACKSTATUS:1'' st
          else if args ! 0 \<in> fst ` set (rooms st)
          then sendall sender_socket ''CREATE:ACKSTATUS:2'' st
          else if length (rooms st) = 256
          then sendall sender_socket ''CREATE:ACKSTATUS:3'' st
          else (sendall sender_socket ''CREATE:ACKSTATUS:0'' st)
                 \<lparr> rooms := rooms st @ [(args ! 0, Room sender_socket)],
                   clients := filter (\<lambda>(k, v). \<not> is_same_socket k sender_socket) (clients st)
                              @ [(sender_socket, Some (args ! 0))] \<rparr>)"
proof (cases "length args = 1")
  case False
  then show ?thesis by (simp add: create_room_def)
next
  case True
  with assms have "check_legal_room_name (args ! 0) = matches_room_name_pattern (args ! 0)"
    by (intro check_legal_room_name_pattern) simp
  then show ?thesis
    using True by (simp add: create_room_def Let_def alist_update_new)
qed

lemma room_count_create:
  "length (rooms st) \<le> 256 \<Longrightarrow> length (rooms (state_of (create_room sm s st))) \<le> 256"
  using length_alist_update [of "sm ! 0" "Room s" "rooms st"]
  by (auto simp: create_room_def Let_def sendall_def)

lemma room_count_join:
  "length (rooms (state_of (join_room sm s st))) = length (rooms st)"
  by (auto simp: join_room_def Let_def sendall_def length_alist_update_present
      split: option.splits sum.splits prod.splits)

lemma room_count_place:
  "length (rooms (state_of (place sm s n st))) \<le> length (rooms st)"
proof -
  have "length (filter P (AList.update n r (rooms st))) \<le> length (rooms st)"
    if "map_of (rooms st) n = Some r0" for P r r0
    using length_filter_le [of P "AList.update n r (rooms st)"]
      length_alist_update_present [OF that, of r] by simp
  then show ?thesis
    by (auto simp: place_def close_room_def sendall_def length_alist_update_present
        split: option.splits sum.splits)
qed

lemma room_count_forfeit:
  "length (rooms (state_of (forfeit s n st))) \<le> length (rooms st)"
  by (auto simp: forfeit_def close_room_def sendall_def split: option.splits sum.splits)

text \<open>
  C8.  A CREATE frame from a logged-in connection is answered, in this order of checks:
  \<open>CREATE:ACKSTATUS:4\<close> when it does not carry exactly one argument, \<open>1\<close> when the name
  does not match the pattern, \<open>2\<close> when a room of that name exists, \<open>3\<close> when the registry
  holds 256 rooms, and \<open>0\<close> otherwise; a room (with the sender as its creator) is added
  in the last case and the registry is unchanged in the others.  A registry of at most
  256 rooms stays so under \<open>create_room\<close>, \<open>join_room\<close>, \<open>place\<close> and \<open>forfeit\<close>.
\<close>

theorem create_room_replies:
  assumes "check_authorizations sender_socket (authenticated_clients st)"
    and "split CHR '':'' (strip data) = ''CREATE'' # args"
  shows "handle_data checkpw register sender_socket data st =
       Some (Returned
         (if length args \<noteq> 1 then sendall sender_socket ''CREATE:ACKSTATUS:4'' st
          else if \<not> matches_room_name_pattern (args ! 0)
          then sendall sender_socket ''CREATE:ACKSTATUS:1'' st
          else if args ! 0 \<in> fst ` set (rooms st)
          then sendall sender_socket ''CREATE:ACKSTATUS:2'' st
          else if length (rooms st) = 256
          then sendall sender_socket ''CREATE:ACKSTATUS:3'' st
          else (sendall sender_socket ''CREATE:ACKSTATUS:0'' st)
                 \<lparr> rooms := rooms st @ [(args ! 0, Room sender_socket)],
                   clients := filter (\<lambda>(k, v). \<not> is_same_socket k sender_socket) (clients st)
                              @ [(sender_socket, Some (args ! 0))] \<rparr>))
     \<and> (length (rooms st) \<le> 256 \<longrightarrow>
          length (rooms (state_of (create_room args sender_socket st))) \<le> 256
        \<and> length (rooms (state_of (join_room sm s st))) \<le> 256
        \<and> length (rooms (state_of (place sm s n st))) \<le> 256
        \<and> length (rooms (state_of (forfeit s n st))) \<le> 256)"
proof -
  have name: "length args = 1 \<longrightarrow> args ! 0 = [] \<or> last (args ! 0) \<noteq> CHR 0x0A"
  proof
    assume l: "length args = 1"
    then obtain name where args: "args = [name]" by (cases args) auto
    show "args ! 0 = [] \<or> last (args ! 0) \<noteq> CHR 0x0A"
    proof (cases "name = []")
      case True
      with args show ?thesis by simp
    next
      case False
      with last_field_of_frame [OF assms(2)] args show ?thesis by simp
    qed
  qed
  have "handle_data checkpw register sender_socket data st
          = Some (create_room args sender_socket st)"
    using assms by (simp add: handle_data_def handle_message_def Let_def)
  with create_room_chain [OF name, of sender_socket st]
    room_count_create [of st args sender_socket] room_count_join [of sm s st]
    room_count_place [of sm s n st] room_count_forfeit [of s n st]
  show ?thesis by simp
qed

theorem create_room_replies_witness:
  "check_authorizations sock_a (authenticated_clients srv_start)
   \<and> split CHR '':'' (strip ''CREATE:bad!name'') = ''CREATE'' # [''bad!name'']
   \<and> handle_data (\<lambda>password hashed. False) (\<lambda>splited_message s st. Returned st)
        sock_a ''CREATE:bad!name'' srv_start
       = Some (Returned (sendall sock_a ''CREATE:ACKSTATUS:1'' srv_start))
   \<and> split CHR '':'' (strip ''CREATE:r1'') = ''CREATE'' # [''r1'']
   \<and> handle_data (\<lambda>password hashed. False) (\<lambda>splited_message s st. Returned st)
        sock_a ''CREATE:r1'' srv_start
       = Some (Returned srv_created)
   \<and> length (rooms srv_start) \<le> 256
   \<and> length (rooms (state_of (create_room [''r1''] sock_a srv_start))) \<le> 256"
  using create_room_replies
      [of sock_a srv_start "''CREATE:bad!name''" "[''bad!name'']"
          "\<lambda>password hashed. False" "\<lambda>splited_message s st. Returned st"]
    create_room_replies
      [of sock_a srv_start "''CREATE:r1''" "[''r1'']"
          "\<lambda>password hashed. False" "\<lambda>splited_message s st. Returned st"]
  by (simp add: srv_start_def srv_created_def check_authorizations_def strip_def is_space_def
      matches_room_name_pattern_def room_name_chars_def sendall_def)

section \<open>Logging in\<close>

lemma check_authorizations_iff:
  "check_authorizations s auth \<longleftrightarrow> s \<in> fst ` set auth"
  by (auto simp: check_authorizations_def list_ex_iff)

lemma login_chain:
  "login checkpw args sender_socket st =
     Returned
       (if length args \<noteq> 2 \<or> args ! 0 = [] \<or> args ! 1 = []
        then sendall sender_socket ''LOGIN:ACKSTATUS:3'' st
        else if args ! 0 \<notin> fst ` set (users st)
        then sendall sender_socket ''LOGIN:ACKSTATUS:1'' st
        else if \<not> checkpw (args ! 1) (the (map_of (users st) (args ! 0)))
        then sendall sender_socket ''LOGIN:ACKSTATUS:2'' st
        else if args ! 0 \<in> snd ` set (authenticated_clients st)
        then sendall sender_socket ''LOGIN:ACKSTATUS:4'' st
        else if sender_socket \<in> fst ` set (authenticated_clients st)
        then sendall sender_socket ''LOGIN:ACKSTATUS:5'' st
        else (sendall sender_socket ''LOGIN:ACKSTATUS:0'' st)
               \<lparr> authenticated_clients :=
                   authenticated_clients st @ [(sender_socket, args ! 0)] \<rparr>)"
proof (cases "map_of (users st) (args ! 0)")
  case None
  then have "args ! 0 \<notin> fst ` set (users st)" by (simp add: map_of_eq_None_iff)
  with None show ?thesis by (simp add: login_def Let_def)
next
  case (Some hashed)
  then have "args ! 0 \<in> fst ` set (users st)"
    by (metis map_of_eq_None_iff option.distinct(1))
  with Some show ?thesis
    by (simp add: login_def Let_def check_authorizations_iff)
qed

lemma login_bindings:
  "(distinct (map snd (authenticated_clients st)) \<longrightarrow>
      distinct (map snd (authenticated_clients (state_of (login checkpw args sender_socket st)))))
   \<and> (distinct (map fst (authenticated_clients st)) \<longrightarrow>
      distinct (map fst (authenticated_clients (state_of (login checkpw args sender_socket st)))))"
  unfolding login_chain by (auto simp: sendall_def)

lemma others_keep_bindings:
  "authenticated_clients (state_of (create_room sm s st)) = authenticated_clients st"
  "authenticated_clients (state_of (join_room sm s st)) = authenticated_clients st"
  "authenticated_clients (state_of (place sm s n st)) = authenticated_clients st"
  "authenticated_clients (state_of (forfeit s n st)) = authenticated_clients st"
  "authenticated_clients (state_of (room_list sm s st)) = authenticated_clients st"
     apply (auto simp: create_room_def Let_def sendall_def)[1]
    apply (auto simp: join_room_def Let_def sendall_def split: option.splits sum.splits prod.splits)[1]
   apply (auto simp: place_def close_room_def sendall_def split: option.splits sum.splits)[1]
  apply (auto simp: forfeit_def close_room_def sendall_def split: option.splits sum.splits)[1]
  apply (auto simp: room_list_def Let_def sendall_def)[1]
  done

text \<open>
  C9 (as amended).  A LOGIN message is answered, in this order of checks:
  \<open>LOGIN:ACKSTATUS:3\<close> when it does not carry exactly two non-empty arguments, \<open>1\<close> when
  the username is not registered, \<open>2\<close> when the password does not verify, \<open>4\<close> when the
  username is bound to any connection (the requesting one included), \<open>5\<close> when the
  requesting connection is bound to a username, and \<open>0\<close> otherwise; the binding of the
  connection to the username is added in the last case and the bindings are unchanged in
  the others.  Bindings with pairwise different usernames (and pairwise different
  connections) stay so, and no other handler changes the bindings.
\<close>

theorem login_replies:
  assumes "split CHR '':'' message = ''LOGIN'' # args"
  shows "handle_message checkpw register sender_socket message st =
     Some (Returned
       (if length args \<noteq> 2 \<or> args ! 0 = [] \<or> args ! 1 = []
        then sendall sender_socket ''LOGIN:ACKSTATUS:3'' st
        else if args ! 0 \<notin> fst ` set (users st)
        then sendall sender_socket ''LOGIN:ACKSTATUS:1'' st
        else if \<not> checkpw (args ! 1) (the (map_of (users st) (args ! 0)))
        then sendall sender_socket ''LOGIN:ACKSTATUS:2'' st
        else if args ! 0 \<in> snd ` set (authenticated_clients st)
        then sendall sender_socket ''LOGIN:ACKSTATUS:4'' st
        else if sender_socket \<in> fst ` set (authenticated_clients st)
        then sendall sender_socket ''LOGIN:ACKSTATUS:5'' st
        else (sendall sender_socket ''LOGIN:ACKSTATUS:0'' st)
               \<lparr> authenticated_clients :=
                   authenticated_clients st @ [(sender_socket, args ! 0)] \<rparr>))
   \<and> (distinct (map snd (authenticated_clients st)) \<longrightarrow>
        distinct (map snd (authenticated_clients (state_of (login checkpw args sender_socket st)))))
   \<and> (distinct (map fst (authenticated_clients st)) \<longrightarrow>
        distinct (map fst (authenticated_clients (state_of (login checkpw args sender_socket st)))))
   \<and> authenticated_clients (state_of (create_room sm s st')) = authenticated_clients st'
   \<and> authenticated_clients (state_of (join_room sm s st')) = authenticated_clients st'
   \<and> authenticated_clients (state_of (place sm s n st')) = authenticated_clients st'
   \<and> authenticated_clients (state_of (forfeit s n st')) = authenticated_clients st'"
proof -
  have "handle_message checkpw register sender_socket message st
          = Some (login checkpw args sender_socket st)"
    using assms by (simp add: handle_message_def Let_def)
  then show ?thesis
    using login_bindings [of st checkpw args sender_socket]
    by (simp add: login_chain others_keep_bindings)
qed

theorem login_replies_witness:
  "split CHR '':'' ''LOGIN:bob:pw-b'' = ''LOGIN'' # [''bob'', ''pw-b'']
   \<and> handle_message (\<lambda>password hashed. hashed = password) (\<lambda>splited_message s st. Returned st)
        sock_b ''LOGIN:bob:pw-b'' srv_users
       = Some (Returned
           ((sendall sock_b ''LOGIN:ACKSTATUS:0'' srv_users)
              \<lparr>authenticated_clients := [(sock_a, ''alice''), (sock_b, ''bob'')]\<rparr>))
   \<and> split CHR '':'' ''LOGIN:bob:wrong'' = ''LOGIN'' # [''bob'', ''wrong'']
   \<and> handle_message (\<lambda>password hashed. hashed = password) (\<lambda>splited_message s st. Returned st)
        sock_b ''LOGIN:bob:wrong'' srv_users
       = Some (Returned (sendall sock_b ''LOGIN:ACKSTATUS:2'' srv_users))
   \<and> split CHR '':'' ''LOGIN:alice:pw-a'' = ''LOGIN'' # [''alice'', ''pw-a'']
   \<and> handle_message (\<lambda>password hashed. hashed = password) (\<lambda>splited_message s st. Returned st)
        sock_b ''LOGIN:alice:pw-a'' srv_users
       = Some (Returned (sendall sock_b ''LOGIN:ACKSTATUS:4'' srv_users))
   \<and> distinct (map snd (authenticated_clients srv_users))
   \<and> distinct (map snd (authenticated_clients
         (state_of (login (\<lambda>password hashed. hashed = password) [''bob'', ''pw-b''] sock_b srv_users))))"
  using login_replies
      [of "''LOGIN:bob:pw-b''" "[''bob'', ''pw-b'']" "\<lambda>password hashed. hashed = password"
          "\<lambda>splited_message s st. Returned st" sock_b srv_users]
    login_replies
      [of "''LOGIN:bob:wrong''" "[''bob'', ''wrong'']" "\<lambda>password hashed. hashed = password"
          "\<lambda>splited_message s st. Returned st" sock_b srv_users]
    login_replies
      [of "''LOGIN:alice:pw-a''" "[''alice'', ''pw-a'']" "\<lambda>password hashed. hashed = password"
          "\<lambda>splited_message s st. Returned st" sock_b srv_users]
  by (simp add: srv_users_def srv_start_def sendall_def)

text \<open>
  The claim as written gives status 4 to a username bound to another connection and
  status 5 to a connection that is already authenticated.  A connection that is logged in
  as \<open>alice\<close> and sends the login of \<open>alice\<close> again is answered 4, although no other
  connection holds that username.
\<close>

theorem login_same_user_again_counterexample:
  "handle_message (\<lambda>password hashed. hashed = password) (\<lambda>splited_message s st. Returned st)
        sock_a ''LOGIN:alice:pw-a'' srv_users
     = Some (Returned (sendall sock_a ''LOGIN:ACKSTATUS:4'' srv_users))
   \<and> authenticated_clients srv_users = [(sock_a, ''alice'')]
   \<and> check_authorizations sock_a (authenticated_clients srv_users)"
  by (simp add: handle_message_def login_def srv_users_def srv_start_def sendall_def
      check_authorizations_def Let_def)

section \<open>Placements and the marks already on the board\<close>

lemma client_place_sent:
  assumes "client_place board_status column_input row_input = Inr (Some msg)"
  shows "\<exists>column row marker. py_int column_input = Inr column \<and> py_int row_input = Inr row
           \<and> 0 \<le> column \<and> column \<le> 2 \<and> 0 \<le> row \<and> row \<le> 2
           \<and> is_position_occupied board_status column row = Inr (Some (False, marker))
           \<and> msg = ''PLACE:'' @ str_int column @ '':'' @ str_int row"
proof -
  from assms obtain column where c: "py_int column_input = Inr column"
    by (cases "py_int column_input") (auto simp: client_place_def)
  with assms obtain row where r: "py_int row_input = Inr row"
    by (cases "py_int row_input") (auto simp: client_place_def)
  from assms have range: "0 \<le> column \<and> column \<le> 2 \<and> 0 \<le> row \<and> row \<le> 2"
    by (auto simp: client_place_def c r split: if_splits)
  with assms obtain marker where
    "is_position_occupied board_status column row = Inr (Some (False, marker))"
    "msg = ''PLACE:'' @ str_int column @ '':'' @ str_int row"
    by (auto simp: client_place_def c r split: sum.splits option.splits prod.splits if_splits)
  with c r range show ?thesis by blast
qed

lemma mark_char_0: "mark_char c = CHR ''0'' \<longleftrightarrow> c = 0"
  by (simp add: mark_char_def)

lemma small_index: "0 \<le> (i::int) \<Longrightarrow> i \<le> 2 \<Longrightarrow> i = 0 \<or> i = 1 \<or> i = 2"
  by arith

lemma is_position_occupied_free:
  assumes "board_shape (matrix r)" and "board_marks (matrix r)"
    and "0 \<le> column" "column \<le> 2" "0 \<le> row" "row \<le> 2"
    and "is_position_occupied (get_matrix_in_string r) column row = Inr (Some (False, marker))"
  shows "matrix r ! nat row ! nat column = 0"
proof -
  from assms(1) obtain a b c d e f g h i where m: "matrix r = [[a, b, c], [d, e, f], [g, h, i]]"
    by (rule board_shape_cases)
  have bs: "get_matrix_in_string r
      = [mark_char a, mark_char b, mark_char c, mark_char d, mark_char e, mark_char f,
         mark_char g, mark_char h, mark_char i]"
    using get_matrix_in_string_marks(1) [OF assms(1,2)] by (simp add: m)
  from small_index [OF assms(3,4)] small_index [OF assms(5,6)] assms(7)
  show ?thesis
    by (auto simp: is_position_occupied_def bs m getitem_def py_index_def mark_char_0
        split: if_splits)
qed

lemma place_message_fields:
  assumes "0 \<le> column" "column \<le> 2" "0 \<le> row" "row \<le> 2"
  shows "split CHR '':'' (''PLACE:'' @ str_int column @ '':'' @ str_int row)
           = [''PLACE'', str_int column, str_int row]
       \<and> py_int (str_int column) = Inr column \<and> py_int (str_int row) = Inr row"
  using small_index [OF assms(1,2)] small_index [OF assms(3,4)] by auto

lemma py_index_three:
  assumes "length xs = 3"
  shows "py_index xs i =
     (if - 3 \<le> i \<and> i \<le> 2 then Inr (nat (if i < 0 then i + 3 else i)) else Inl IndexError)"
  using assms by (auto simp: py_index_def Let_def)

lemma set_cell_three:
  assumes "board_shape m"
  shows "set_cell m row column v =
     (if - 3 \<le> row \<and> row \<le> 2 \<and> - 3 \<le> column \<and> column \<le> 2
      then Inr (m[nat (if row < 0 then row + 3 else row) :=
                   (m ! nat (if row < 0 then row + 3 else row))
                     [nat (if column < 0 then column + 3 else column) := v]])
      else Inl IndexError)"
proof -
  from assms have len: "length m = 3" and rows: "\<And>i. i < 3 \<Longrightarrow> length (m ! i) = 3"
    by (auto simp: board_shape_def list_all_length)
  show ?thesis
  proof (cases "- 3 \<le> row \<and> row \<le> 2")
    case False
    then have "py_index m row = Inl IndexError" by (auto simp: py_index_three [OF len])
    with False show ?thesis by (auto simp: set_cell_def)
  next
    case True
    then have "nat (if row < 0 then row + 3 else row) < 3" by auto
    then have "length (m ! nat (if row < 0 then row + 3 else row)) = 3" by (rule rows)
    from py_index_three [OF this] True show ?thesis
      by (simp add: set_cell_def py_index_three [OF len])
  qed
qed

lemma set_cell_three_nth:
  assumes "board_shape m" and "- 3 \<le> row" "row \<le> 2" "- 3 \<le> column" "column \<le> 2"
    and "set_cell m row column v = Inr m'"
  shows "m' ! nat (if row < 0 then row + 3 else row) ! nat (if column < 0 then column + 3 else column)
           = v"
    and "\<And>i j. (i, j) \<noteq> (nat (if row < 0 then row + 3 else row),
                           nat (if column < 0 then column + 3 else column))
            \<Longrightarrow> m' ! i ! j = m ! i ! j"
proof -
  let ?i = "nat (if row < 0 then row + 3 else row)"
  let ?j = "nat (if column < 0 then column + 3 else column)"
  from assms(1) have len: "length m = 3" and rows: "\<And>i. i < 3 \<Longrightarrow> length (m ! i) = 3"
    by (auto simp: board_shape_def list_all_length)
  have m': "m' = m[?i := (m ! ?i)[?j := v]]"
    using set_cell_three [OF assms(1), of row column v] assms(2-6) by simp
  have lt: "?i < 3" "?j < 3" using assms(2-5) by auto
  show "m' ! ?i ! ?j = v"
    using lt len rows [of ?i] by (simp add: m')
  show "m' ! i ! j = m ! i ! j" if "(i, j) \<noteq> (?i, ?j)" for i j
  proof (cases "i = ?i")
    case True
    with that have "j \<noteq> ?j" by simp
    with True lt len show ?thesis by (simp add: m')
  next
    case False
    then show ?thesis by (simp add: m')
  qed
qed

lemma update_matrix_outside:
  assumes "board_shape (matrix r)" and "players r = [p0, p1]"
    and "row < - 3 \<or> 2 < row \<or> column < - 3 \<or> 2 < column"
  shows "update_matrix r row column = Inl IndexError"
  unfolding update_matrix_two_players [OF assms(2)] set_cell_three [OF assms(1)]
  using assms(3) by auto

lemma py_int_minus_3: "py_int ''-3'' = Inr (- 3)"
  by (simp add: py_int_def is_int_space_def is_digit_def digits_value_def digit_val_def)

text \<open>
  C1 (as amended).  \<open>place\<close> and \<open>Room.update_matrix\<close> have no Occupied or OutOfRange
  result.  In a room of two players with a 3 by 3 board: for a row and a column in
  [-3,2] the placement is accepted whatever the target cell holds, the mover's mark is
  written into the cell that Python's indexing names (a negative index counts from the
  end), every other cell is unchanged, and when the move does not end the match \<open>place\<close>
  stores the room and sends \<open>BOARDSTATUS\<close> to both players and the viewers; for a row or a
  column outside [-3,2] \<open>Room.update_matrix\<close> raises \<open>IndexError\<close> and \<open>place\<close> raises
  it with the state as it was, before anything is stored or sent.  The checks are made by
  the client: it sends a PLACE frame only when column and row are integers in [0,2] and
  the cell is empty in the board string it holds, and the frame carries that column and
  row.  On such a placement only the empty target cell changes, so every cell that held
  a mark keeps it.
\<close>

theorem place_has_no_cell_check:
  assumes "board_shape (matrix r)" and "players r = [p0, p1]"
  shows "(- 3 \<le> row \<and> row \<le> 2 \<and> - 3 \<le> column \<and> column \<le> 2 \<longrightarrow>
            (\<exists>r'. update_matrix r row column = Inr r'
               \<and> matrix r' ! nat (if row < 0 then row + 3 else row)
                           ! nat (if column < 0 then column + 3 else column)
                   = (if current_player r = p0 then 1 else 2)
               \<and> (\<forall>i j. (i, j) \<noteq> (nat (if row < 0 then row + 3 else row),
                                   nat (if column < 0 then column + 3 else column))
                        \<longrightarrow> matrix r' ! i ! j = matrix r ! i ! j)
               \<and> board_shape (matrix r')
               \<and> (map_of (rooms st) roomname = Some r
                  \<and> getitem sm 2 = Inr f2 \<and> py_int f2 = Inr row
                  \<and> getitem sm 1 = Inr f1 \<and> py_int f1 = Inr column
                  \<and> \<not> has_end r' \<longrightarrow>
                    place sm s roomname st =
                      Returned (st\<lparr>rooms := AList.update roomname r' (rooms st),
                                   sent := sent st
                                     @ [(s, ''BOARDSTATUS:'' @ get_matrix_in_string r'),
                                        (if p0 = s then p1 else p0,
                                         ''BOARDSTATUS:'' @ get_matrix_in_string r')]
                                     @ send_to_all_viewers r'
                                         (''BOARDSTATUS:'' @ get_matrix_in_string r')\<rparr>))))
       \<and> (row < - 3 \<or> 2 < row \<or> column < - 3 \<or> 2 < column \<longrightarrow>
            update_matrix r row column = Inl IndexError
            \<and> (map_of (rooms st) roomname = Some r
               \<and> getitem sm 2 = Inr f2 \<and> py_int f2 = Inr row
               \<and> getitem sm 1 = Inr f1 \<and> py_int f1 = Inr column \<longrightarrow>
                 place sm s roomname st = Raised IndexError st))
       \<and> (board_marks (matrix r)
          \<and> client_place (get_matrix_in_string r) column_input row_input = Inr (Some msg) \<longrightarrow>
            (\<exists>c rw. py_int column_input = Inr c \<and> py_int row_input = Inr rw
               \<and> 0 \<le> c \<and> c \<le> 2 \<and> 0 \<le> rw \<and> rw \<le> 2
               \<and> split CHR '':'' msg = [''PLACE'', str_int c, str_int rw]
               \<and> py_int (str_int c) = Inr c \<and> py_int (str_int rw) = Inr rw
               \<and> matrix r ! nat rw ! nat c = 0))"
proof (intro conjI impI)
  let ?i = "nat (if row < 0 then row + 3 else row)"
  let ?j = "nat (if column < 0 then column + 3 else column)"
  assume "- 3 \<le> row \<and> row \<le> 2 \<and> - 3 \<le> column \<and> column \<le> 2"
  then have rng: "- 3 \<le> row" "row \<le> 2" "- 3 \<le> column" "column \<le> 2" by simp_all
  obtain m where
    m: "set_cell (matrix r) row column (if current_player r = p0 then 1 else 2) = Inr m"
    using set_cell_three [OF assms(1), of row column] rng by simp
  define r' where "r' = check_end_status
      (r\<lparr>matrix := m, current_player := (if current_player r = p0 then p1 else p0)\<rparr>)"
  have upd: "update_matrix r row column = Inr r'"
    unfolding update_matrix_two_players [OF assms(2)] by (simp add: m r'_def)
  have mr: "matrix r' = m" by (simp add: r'_def)
  note nth = set_cell_three_nth [OF assms(1) rng m]
  have cell: "matrix r' ! ?i ! ?j = (if current_player r = p0 then 1 else 2)"
    using nth(1) by (simp only: mr)
  have others: "\<forall>i j. (i, j) \<noteq> (?i, ?j) \<longrightarrow> matrix r' ! i ! j = matrix r ! i ! j"
    using nth(2) by (simp only: mr) blast
  have shape: "board_shape (matrix r')"
    using set_cell_shape [OF assms(1) m] by (simp only: mr)
  have sent: "map_of (rooms st) roomname = Some r
                  \<and> getitem sm 2 = Inr f2 \<and> py_int f2 = Inr row
                  \<and> getitem sm 1 = Inr f1 \<and> py_int f1 = Inr column
                  \<and> \<not> has_end r' \<longrightarrow>
                    place sm s roomname st =
                      Returned (st\<lparr>rooms := AList.update roomname r' (rooms st),
                                   sent := sent st
                                     @ [(s, ''BOARDSTATUS:'' @ get_matrix_in_string r'),
                                        (if p0 = s then p1 else p0,
                                         ''BOARDSTATUS:'' @ get_matrix_in_string r')]
                                     @ send_to_all_viewers r'
                                         (''BOARDSTATUS:'' @ get_matrix_in_string r')\<rparr>)"
    using place_accepted [OF _ assms(2) _ _ _ _ upd, of st roomname sm f2 f1 s] by blast
  from upd cell others shape sent
  show "\<exists>r'. update_matrix r row column = Inr r'
               \<and> matrix r' ! ?i ! ?j = (if current_player r = p0 then 1 else 2)
               \<and> (\<forall>i j. (i, j) \<noteq> (?i, ?j) \<longrightarrow> matrix r' ! i ! j = matrix r ! i ! j)
               \<and> board_shape (matrix r')
               \<and> (map_of (rooms st) roomname = Some r
                  \<and> getitem sm 2 = Inr f2 \<and> py_int f2 = Inr row
                  \<and> getitem sm 1 = Inr f1 \<and> py_int f1 = Inr column
                  \<and> \<not> has_end r' \<longrightarrow>
                    place sm s roomname st =
                      Returned (st\<lparr>rooms := AList.update roomname r' (rooms st),
                                   sent := sent st
                                     @ [(s, ''BOARDSTATUS:'' @ get_matrix_in_string r'),
                                        (if p0 = s then p1 else p0,
                                         ''BOARDSTATUS:'' @ get_matrix_in_string r')]
                                     @ send_to_all_viewers r'
                                         (''BOARDSTATUS:'' @ get_matrix_in_string r')\<rparr>))"
    by (intro exI [of _ r'] conjI)
next
  assume "row < - 3 \<or> 2 < row \<or> column < - 3 \<or> 2 < column"
  then show "update_matrix r row column = Inl IndexError"
    by (rule update_matrix_outside [OF assms])
next
  assume out: "row < - 3 \<or> 2 < row \<or> column < - 3 \<or> 2 < column"
    and "map_of (rooms st) roomname = Some r
               \<and> getitem sm 2 = Inr f2 \<and> py_int f2 = Inr row
               \<and> getitem sm 1 = Inr f1 \<and> py_int f1 = Inr column"
  then show "place sm s roomname st = Raised IndexError st"
    using place_raises [OF _ _ _ _ _ update_matrix_outside [OF assms out]] by blast
next
  assume "board_marks (matrix r)
          \<and> client_place (get_matrix_in_string r) column_input row_input = Inr (Some msg)"
  then have marks: "board_marks (matrix r)"
    and cp: "client_place (get_matrix_in_string r) column_input row_input = Inr (Some msg)"
    by simp_all
  from client_place_sent [OF cp] obtain c rw marker where
    p: "py_int column_input = Inr c" "py_int row_input = Inr rw"
    and rng: "0 \<le> c" "c \<le> 2" "0 \<le> rw" "rw \<le> 2"
    and free: "is_position_occupied (get_matrix_in_string r) c rw = Inr (Some (False, marker))"
    and msg: "msg = ''PLACE:'' @ str_int c @ '':'' @ str_int rw"
    by blast
  from is_position_occupied_free [OF assms(1) marks rng free]
  have "matrix r ! nat rw ! nat c = 0" .
  with p rng place_message_fields [OF rng] msg
  show "\<exists>c rw. py_int column_input = Inr c \<and> py_int row_input = Inr rw
               \<and> 0 \<le> c \<and> c \<le> 2 \<and> 0 \<le> rw \<and> rw \<le> 2
               \<and> split CHR '':'' msg = [''PLACE'', str_int c, str_int rw]
               \<and> py_int (str_int c) = Inr c \<and> py_int (str_int rw) = Inr rw
               \<and> matrix r ! nat rw ! nat c = 0"
    by blast
qed

theorem place_has_no_cell_check_witness:
  "board_shape (matrix (room_ab [[1, 0, 0], [0, 0, 0], [0, 0, 0]] sock_b))
   \<and> players (room_ab [[1, 0, 0], [0, 0, 0], [0, 0, 0]] sock_b) = [sock_a, sock_b]
   \<and> (\<exists>r'. update_matrix (room_ab [[1, 0, 0], [0, 0, 0], [0, 0, 0]] sock_b) (- 3) 0 = Inr r'
         \<and> matrix r' ! 0 ! 0 = 2
         \<and> (\<forall>i j. (i, j) \<noteq> (0, 0) \<longrightarrow>
               matrix r' ! i ! j = matrix (room_ab [[1, 0, 0], [0, 0, 0], [0, 0, 0]] sock_b) ! i ! j)
         \<and> board_shape (matrix r')
         \<and> place [''PLACE'', ''0'', ''-3''] sock_b ''r1''
               (srv_ab [[1, 0, 0], [0, 0, 0], [0, 0, 0]] sock_b)
             = Returned ((srv_ab [[1, 0, 0], [0, 0, 0], [0, 0, 0]] sock_b)
                 \<lparr>rooms := AList.update ''r1'' r'
                             (rooms (srv_ab [[1, 0, 0], [0, 0, 0], [0, 0, 0]] sock_b)),
                  sent := [(sock_b, ''BOARDSTATUS:'' @ get_matrix_in_string r'),
                           (sock_a, ''BOARDSTATUS:'' @ get_matrix_in_string r')]
                          @ send_to_all_viewers r' (''BOARDSTATUS:'' @ get_matrix_in_string r')\<rparr>))
   \<and> update_matrix (room_ab [[1, 0, 0], [0, 0, 0], [0, 0, 0]] sock_b) 0 3 = Inl IndexError
   \<and> place [''PLACE'', ''3'', ''0''] sock_b ''r1'' (srv_ab [[1, 0, 0], [0, 0, 0], [0, 0, 0]] sock_b)
       = Raised IndexError (srv_ab [[1, 0, 0], [0, 0, 0], [0, 0, 0]] sock_b)
   \<and> board_marks (matrix (room_ab [[1, 0, 0], [0, 0, 0], [0, 0, 0]] sock_b))
   \<and> get_matrix_in_string (room_ab [[1, 0, 0], [0, 0, 0], [0, 0, 0]] sock_b) = ''100000000''
   \<and> client_place ''100000000'' ''1'' ''1'' = Inr (Some ''PLACE:1:1'')
   \<and> client_place ''100000000'' ''0'' ''0'' = Inr None
   \<and> client_place ''100000000'' ''3'' ''0'' = Inr None
   \<and> client_place ''100000000'' ''0'' ''-3'' = Inr None
   \<and> (\<exists>c rw. py_int ''1'' = Inr c \<and> py_int ''1'' = Inr rw
         \<and> split CHR '':'' ''PLACE:1:1'' = [''PLACE'', str_int c, str_int rw]
         \<and> matrix (room_ab [[1, 0, 0], [0, 0, 0], [0, 0, 0]] sock_b) ! nat rw ! nat c = 0)"
  using place_has_no_cell_check
    [of "room_ab [[1, 0, 0], [0, 0, 0], [0, 0, 0]] sock_b" sock_a sock_b "- 3" 0
        "srv_ab [[1, 0, 0], [0, 0, 0], [0, 0, 0]] sock_b" "''r1''" "[''PLACE'', ''0'', ''-3'']"
        "''-3''" "''0''" sock_b "''1''" "''1''" "''PLACE:1:1''"]
    place_has_no_cell_check
    [of "room_ab [[1, 0, 0], [0, 0, 0], [0, 0, 0]] sock_b" sock_a sock_b 0 3
        "srv_ab [[1, 0, 0], [0, 0, 0], [0, 0, 0]] sock_b" "''r1''" "[''PLACE'', ''3'', ''0'']"
        "''0''" "''3''" sock_b "''1''" "''1''" "''PLACE:1:1''"]
  by (simp add: room_ab_def srv_ab_def board_marks_def get_matrix_in_string_literal
      client_place_def is_position_occupied_def getitem_def py_index_def py_int_minus_3
      update_matrix_def set_cell_def check_end_status_def check_rows_def check_columns_def
      check_diagonals_def is_board_full_def upt3 send_to_all_viewers_def)

text \<open>
  The claim as written fails on all three counts.  A PLACE on an occupied cell is
  applied and overwrites the mark; a row and column of -1 are taken as Python's index
  from the end, so the mark lands in the last cell; and a column of 3 raises \<open>IndexError\<close>
  out of the handler instead of an OutOfRange reply.
\<close>

theorem place_overwrites_counterexample:
  "place [''PLACE'', ''0'', ''0''] sock_b ''r1'' (srv_ab [[1, 0, 0], [0, 0, 0], [0, 0, 0]] sock_b)
     = Returned ((srv_ab [[2, 0, 0], [0, 0, 0], [0, 0, 0]] sock_a)
                   \<lparr>sent := [(sock_b, ''BOARDSTATUS:200000000''),
                             (sock_a, ''BOARDSTATUS:200000000''),
                             (sock_v, ''BOARDSTATUS:200000000'')]\<rparr>)
   \<and> place [''PLACE'', ''-1'', ''-1''] sock_a ''r1'' (srv_ab [[0, 0, 0], [0, 0, 0], [0, 0, 0]] sock_a)
     = Returned ((srv_ab [[0, 0, 0], [0, 0, 0], [0, 0, 1]] sock_b)
                   \<lparr>sent := [(sock_a, ''BOARDSTATUS:000000001''),
                             (sock_b, ''BOARDSTATUS:000000001''),
                             (sock_v, ''BOARDSTATUS:000000001'')]\<rparr>)
   \<and> place [''PLACE'', ''3'', ''0''] sock_a ''r1'' (srv_ab [[0, 0, 0], [0, 0, 0], [0, 0, 0]] sock_a)
     = Raised IndexError (srv_ab [[0, 0, 0], [0, 0, 0], [0, 0, 0]] sock_a)"
  by (simp add: place_def srv_ab_def room_ab_def update_matrix_def set_cell_def py_index_def
      getitem_def check_end_status_def check_rows_def check_columns_def check_diagonals_def
      is_board_full_def upt3 place_board_status_def get_another_player_two
      get_matrix_in_string_literal send_to_all_viewers_def)

end
